theory Spec2Isabelle
  imports Complex_Main "HOL-Library.Word"
begin

section \<open>The rollup ledger: contracts/OptimisticRollup.sol\<close>

text \<open>
  Solidity's \<open>uint256\<close> and \<open>bytes32\<close> are 256-bit words and an \<open>address\<close> is a
  160-bit word. The contract is compiled with \<open>pragma solidity ^0.8.20\<close>, so \<open>+\<close>,
  \<open>-\<close> and \<open>++\<close> are checked: an overflow aborts the call with a panic and every
  storage write of the call is undone. Each function of the contract is a function from
  the storage before the call to either an error (the call reverted, the storage is the
  one before the call) or the storage after the call together with the ether payments the
  call made, in order. Every call is a transaction of its own, so the guard of
  \<open>nonReentrant\<close> is open when it starts; events and gas are not modelled.
\<close>

type_synonym uint256 = "256 word"
type_synonym bytes32 = "256 word"
type_synonym address = "160 word"
type_synonym bytes = "8 word list"

record StateCommitment =
  stateRoot :: bytes32
  blockNumber :: uint256
  timestamp :: uint256
  proposer :: address
  finalized :: bool

record FraudProof =
  commitmentIndex :: uint256
  preStateRoot :: bytes32
  postStateRoot :: bytes32
  transitionProof :: bytes
  challenger :: address
  challengeTime :: uint256
  resolved :: bool

text \<open>
  The storage of the contract. A Solidity mapping is total: a key never written reads as
  the zero value. \<open>owner\<close> is the owner kept by the inherited \<open>OwnableUpgradeable\<close>
  (read by the modifier \<open>onlyOwner\<close>), and \<open>balance\<close> is the ether the contract holds,
  which \<open>payable\<close> calls increase and \<open>transfer\<close> decreases. The balance is a natural
  number: the ether in existence is far below \<open>2 ^ 256\<close> wei, so receiving a payment
  cannot overflow it.
\<close>

record rollup =
  stateCommitments :: "uint256 \<Rightarrow> StateCommitment"
  fraudProofs :: "uint256 \<Rightarrow> FraudProof"
  currentCommitmentIndex :: uint256
  currentProofIndex :: uint256
  challengePeriod :: uint256
  bondAmount :: uint256
  sequencer :: address
  bonds :: "address \<Rightarrow> uint256"
  owner :: address
  balance :: nat

text \<open>
  What a call sees of the transaction and of the chain: the caller, the block, and
  \<open>accepts\<close>, which tells whether a plain \<open>transfer\<close> of ether to an address goes
  through (it does for an externally owned account; a contract can refuse it).
  The value sent with a call is an argument of the \<open>payable\<close> functions only; a
  function that is not \<open>payable\<close> cannot receive any.
\<close>

record ctx =
  msg_sender :: address
  block_timestamp :: uint256
  block_number :: uint256
  accepts :: "address \<Rightarrow> bool"

datatype error =
    Revert string
  | Panic
  | OwnableUnauthorizedAccount address
  | TransferFailed

type_synonym payment = "address \<times> uint256"
type_synonym outcome = "error + rollup \<times> payment list"

definition zeroCommitment :: StateCommitment where
  "zeroCommitment = \<lparr>stateRoot = 0, blockNumber = 0, timestamp = 0, proposer = 0,
     finalized = False\<rparr>"

definition zeroProof :: FraudProof where
  "zeroProof = \<lparr>commitmentIndex = 0, preStateRoot = 0, postStateRoot = 0,
     transitionProof = [], challenger = 0, challengeTime = 0, resolved = False\<rparr>"

text \<open>
  \<open>initialize\<close>, run once on fresh (all-zero) storage by the deployer, who becomes the
  owner.
\<close>

definition initialize :: "address \<Rightarrow> address \<Rightarrow> uint256 \<Rightarrow> uint256 \<Rightarrow> rollup" where
  "initialize deployer sequencer' challengePeriod' bondAmount' =
     \<lparr>stateCommitments = (\<lambda>_. zeroCommitment),
      fraudProofs = (\<lambda>_. zeroProof),
      currentCommitmentIndex = 0,
      currentProofIndex = 0,
      challengePeriod = challengePeriod',
      bondAmount = bondAmount',
      sequencer = sequencer',
      bonds = (\<lambda>_. 0),
      owner = deployer,
      balance = 0\<rparr>"

text \<open>
  \<open>a + b\<close> on \<open>uint256\<close> panics when the sum does not fit; \<open>overflows a b\<close> is that
  condition.
\<close>

definition overflows :: "uint256 \<Rightarrow> uint256 \<Rightarrow> bool" where
  "overflows a b \<longleftrightarrow> \<not> unat a + unat b < 2 ^ 256"

text \<open>
  \<open>payable(to).transfer(amount)\<close>: fails, reverting the whole call, when the contract
  holds less than \<open>amount\<close> or the recipient refuses the payment.
\<close>

definition transfer :: "ctx \<Rightarrow> address \<Rightarrow> uint256 \<Rightarrow> rollup \<times> payment list \<Rightarrow> outcome" where
  "transfer c to amount st =
     (case st of (s, paid) \<Rightarrow>
        if balance s < unat amount \<or> \<not> accepts c to then Inl TransferFailed
        else Inr (s\<lparr>balance := balance s - unat amount\<rparr>, paid @ [(to, amount)]))"

definition commitState :: "rollup \<Rightarrow> ctx \<Rightarrow> bytes32 \<Rightarrow> outcome" where
  "commitState s c stateRoot' =
     (if msg_sender c \<noteq> sequencer s then Inl (Revert ''Only sequencer can commit states'')
      else if \<not> bonds s (msg_sender c) \<ge> bondAmount s then Inl (Revert ''Insufficient bond'')
      else if overflows (currentCommitmentIndex s) 1 then Inl Panic
      else Inr (s\<lparr>stateCommitments := (stateCommitments s)
                     (currentCommitmentIndex s :=
                        \<lparr>stateRoot = stateRoot',
                         blockNumber = block_number c,
                         timestamp = block_timestamp c,
                         proposer = msg_sender c,
                         finalized = False\<rparr>),
                   currentCommitmentIndex := currentCommitmentIndex s + 1\<rparr>, []))"

text \<open>\<open>challengeState\<close> is \<open>payable\<close>: \<open>msg_value\<close> is the ether sent with the call.\<close>

definition challengeState ::
  "rollup \<Rightarrow> ctx \<Rightarrow> uint256 \<Rightarrow> uint256 \<Rightarrow> bytes32 \<Rightarrow> bytes32 \<Rightarrow> bytes \<Rightarrow> outcome" where
  "challengeState s c msg_value commitmentIndex' preStateRoot' postStateRoot' transitionProof' =
     (if \<not> msg_value \<ge> bondAmount s then Inl (Revert ''Insufficient challenge bond'')
      else if \<not> commitmentIndex' < currentCommitmentIndex s
        then Inl (Revert ''Invalid commitment index'')
      else if finalized (stateCommitments s commitmentIndex')
        then Inl (Revert ''State already finalized'')
      else if overflows (timestamp (stateCommitments s commitmentIndex')) (challengePeriod s)
        then Inl Panic
      else if \<not> block_timestamp c
                 \<le> timestamp (stateCommitments s commitmentIndex') + challengePeriod s
        then Inl (Revert ''Challenge period expired'')
      else if overflows (currentProofIndex s) 1 then Inl Panic
      else Inr (s\<lparr>fraudProofs := (fraudProofs s)
                     (currentProofIndex s :=
                        \<lparr>commitmentIndex = commitmentIndex',
                         preStateRoot = preStateRoot',
                         postStateRoot = postStateRoot',
                         transitionProof = transitionProof',
                         challenger = msg_sender c,
                         challengeTime = block_timestamp c,
                         resolved = False\<rparr>),
                   currentProofIndex := currentProofIndex s + 1,
                   balance := balance s + unat msg_value\<rparr>, []))"

definition resolveChallenge :: "rollup \<Rightarrow> ctx \<Rightarrow> uint256 \<Rightarrow> bool \<Rightarrow> outcome" where
  "resolveChallenge s c proofIndex fraudulent =
     (if msg_sender c \<noteq> owner s then Inl (OwnableUnauthorizedAccount (msg_sender c))
      else if \<not> proofIndex < currentProofIndex s then Inl (Revert ''Invalid proof index'')
      else if resolved (fraudProofs s proofIndex)
        then Inl (Revert ''Challenge already resolved'')
      else
        let proof = fraudProofs s proofIndex;
            commitment = stateCommitments s (commitmentIndex proof);
            s1 = s\<lparr>fraudProofs := (fraudProofs s)(proofIndex := proof\<lparr>resolved := True\<rparr>)\<rparr>
        in if fraudulent then
             let slashAmount = bonds s1 (proposer commitment);
                 s2 = s1\<lparr>bonds := (bonds s1)(proposer commitment := 0)\<rparr>
             in case transfer c (challenger proof) (bondAmount s2) (s2, []) of
                  Inl e \<Rightarrow> Inl e
                | Inr st \<Rightarrow>
                    if slashAmount > bondAmount s2
                    then transfer c (challenger proof) (slashAmount - bondAmount s2) st
                    else Inr st
           else transfer c (proposer commitment) (bondAmount s1) (s1, []))"

text \<open>
  The loop of \<open>finalizeStates\<close> over the indices \<open>0 .. currentCommitmentIndex - 1\<close>.
  \<open>&&\<close> evaluates its right operand, with the checked addition, only for a commitment
  that is not finalized yet.
\<close>

fun finalizeStates_loop :: "ctx \<Rightarrow> nat list \<Rightarrow> rollup \<Rightarrow> error + rollup" where
  "finalizeStates_loop c [] s = Inr s"
| "finalizeStates_loop c (i # is) s =
     (let commitment = stateCommitments s (of_nat i)
      in if \<not> finalized commitment then
           if overflows (timestamp commitment) (challengePeriod s) then Inl Panic
           else if block_timestamp c > timestamp commitment + challengePeriod s
             then finalizeStates_loop c is
                    (s\<lparr>stateCommitments := (stateCommitments s)
                         (of_nat i := commitment\<lparr>finalized := True\<rparr>)\<rparr>)
             else finalizeStates_loop c is s
         else finalizeStates_loop c is s)"

definition finalizeStates :: "rollup \<Rightarrow> ctx \<Rightarrow> outcome" where
  "finalizeStates s c =
     (case finalizeStates_loop c [0 ..< unat (currentCommitmentIndex s)] s of
        Inl e \<Rightarrow> Inl e
      | Inr s' \<Rightarrow> Inr (s', []))"

definition finalizeState :: "rollup \<Rightarrow> ctx \<Rightarrow> uint256 \<Rightarrow> outcome" where
  "finalizeState s c index' =
     (if \<not> index' < currentCommitmentIndex s then Inl (Revert ''Invalid commitment index'')
      else
        let commitment = stateCommitments s index'
        in if finalized commitment then Inl (Revert ''State already finalized'')
           else if overflows (timestamp commitment) (challengePeriod s) then Inl Panic
           else if \<not> block_timestamp c > timestamp commitment + challengePeriod s
             then Inl (Revert ''Challenge period not expired'')
           else Inr (s\<lparr>stateCommitments := (stateCommitments s)
                          (index' := commitment\<lparr>finalized := True\<rparr>)\<rparr>, []))"

definition depositBond :: "rollup \<Rightarrow> ctx \<Rightarrow> uint256 \<Rightarrow> outcome" where
  "depositBond s c msg_value =
     (if overflows (bonds s (msg_sender c)) msg_value then Inl Panic
      else Inr (s\<lparr>bonds := (bonds s)(msg_sender c := bonds s (msg_sender c) + msg_value),
                   balance := balance s + unat msg_value\<rparr>, []))"

text \<open>The two overloads of \<open>withdrawBond\<close>: with an amount, and the whole bond.\<close>

definition withdrawBond :: "rollup \<Rightarrow> ctx \<Rightarrow> uint256 \<Rightarrow> outcome" where
  "withdrawBond s c amount =
     (if \<not> bonds s (msg_sender c) \<ge> amount then Inl (Revert ''Insufficient bond balance'')
      else transfer c (msg_sender c) amount
             (s\<lparr>bonds := (bonds s)(msg_sender c := bonds s (msg_sender c) - amount)\<rparr>, []))"

definition withdrawBond_all :: "rollup \<Rightarrow> ctx \<Rightarrow> outcome" where
  "withdrawBond_all s c =
     (let amount = bonds s (msg_sender c)
      in if \<not> amount > 0 then Inl (Revert ''No bond to withdraw'')
         else transfer c (msg_sender c) amount
                (s\<lparr>bonds := (bonds s)(msg_sender c := 0)\<rparr>, []))"

definition setSequencer :: "rollup \<Rightarrow> ctx \<Rightarrow> address \<Rightarrow> outcome" where
  "setSequencer s c newSequencer =
     (if msg_sender c \<noteq> owner s then Inl (OwnableUnauthorizedAccount (msg_sender c))
      else Inr (s\<lparr>sequencer := newSequencer\<rparr>, []))"

definition setChallengePeriod :: "rollup \<Rightarrow> ctx \<Rightarrow> uint256 \<Rightarrow> outcome" where
  "setChallengePeriod s c newPeriod =
     (if msg_sender c \<noteq> owner s then Inl (OwnableUnauthorizedAccount (msg_sender c))
      else Inr (s\<lparr>challengePeriod := newPeriod\<rparr>, []))"

subsection \<open>Sequences of calls\<close>

text \<open>
  One transaction sent to the ledger. A transaction that reverts leaves the storage as it
  was, and the next one runs on that storage.
\<close>

datatype call =
    CommitState ctx bytes32
  | ChallengeState ctx uint256 uint256 bytes32 bytes32 bytes
  | ResolveChallenge ctx uint256 bool
  | FinalizeState ctx uint256
  | FinalizeStates ctx
  | DepositBond ctx uint256
  | WithdrawBond ctx uint256
  | WithdrawBondAll ctx
  | SetSequencer ctx address
  | SetChallengePeriod ctx uint256

fun step :: "rollup \<Rightarrow> call \<Rightarrow> outcome" where
  "step s (CommitState c r) = commitState s c r"
| "step s (ChallengeState c v i pre post p) = challengeState s c v i pre post p"
| "step s (ResolveChallenge c i f) = resolveChallenge s c i f"
| "step s (FinalizeState c i) = finalizeState s c i"
| "step s (FinalizeStates c) = finalizeStates s c"
| "step s (DepositBond c v) = depositBond s c v"
| "step s (WithdrawBond c a) = withdrawBond s c a"
| "step s (WithdrawBondAll c) = withdrawBond_all s c"
| "step s (SetSequencer c a) = setSequencer s c a"
| "step s (SetChallengePeriod c p) = setChallengePeriod s c p"

definition after :: "rollup \<Rightarrow> call \<Rightarrow> rollup" where
  "after s x = (case step s x of Inl e \<Rightarrow> s | Inr (s', paid) \<Rightarrow> s')"

fun run :: "rollup \<Rightarrow> call list \<Rightarrow> rollup" where
  "run s [] = s"
| "run s (x # xs) = run (after s x) xs"


text \<open>
  \<open>debits s a x\<close>: the call \<open>x\<close>, made on storage \<open>s\<close>, is a withdrawal by \<open>a\<close>
  or a fraudulent resolution of a challenge against a commitment that \<open>a\<close> proposed.
  \<open>quiet s a xs\<close>: no call of the sequence \<open>xs\<close>, run from \<open>s\<close>, is one.
\<close>

fun debits :: "rollup \<Rightarrow> address \<Rightarrow> call \<Rightarrow> bool" where
  "debits s a (WithdrawBond c amount) = (msg_sender c = a)"
| "debits s a (WithdrawBondAll c) = (msg_sender c = a)"
| "debits s a (ResolveChallenge c i f) =
     (f \<and> a = proposer (stateCommitments s (commitmentIndex (fraudProofs s i))))"
| "debits s a _ = False"

fun quiet :: "rollup \<Rightarrow> address \<Rightarrow> call list \<Rightarrow> bool" where
  "quiet s a [] = True"
| "quiet s a (x # xs) = (\<not> debits s a x \<and> quiet (after s x) a xs)"

text \<open>The ether a list of payments sends to one address, in wei.\<close>

fun paid_to :: "address \<Rightarrow> payment list \<Rightarrow> nat" where
  "paid_to a [] = 0"
| "paid_to a (p # ps) = (if fst p = a then unat (snd p) else 0) + paid_to a ps"

section \<open>The settlement router: sequencer/src/settlement\<close>

text \<open>
  TypeScript's \<open>bigint\<close> is an unbounded integer. A \<open>number\<close> is modelled as a real:
  the rounding of IEEE doubles, \<open>NaN\<close> and the infinities are outside the model. A
  \<open>Map\<close> iterates in the order in which its keys were first inserted, so it is an
  association list with distinct keys. A promise that rejects, or a function that throws,
  returns \<open>Inl\<close>.
\<close>

datatype ChainId = ETHEREUM | BSC | POLYGON | ARBITRUM | OPTIMISM | BASE

record BatchSubmission =
  batchIndex :: int
  batchRoot :: string
  transactions :: "string list"
  batchStateRoot :: string
  batchTimestamp :: int

record SettlementResult =
  success :: bool
  txHash :: string
  resultBlockNumber :: int
  gasUsed :: int
  cost :: int
  finalizationTime :: real

record ChainMetrics =
  gasPrice :: int
  blockTime :: real
  metricsFinalizationTime :: real
  chainLoad :: real
  lastUpdated :: real

text \<open>
  The errors the router and the strategies throw, and \<open>Thrown\<close> for whatever an adapter
  throws. In the source they are all \<open>Error\<close> objects told apart by their message:
  \<open>NoAvailableChains\<close> is \<open>'No available chains for settlement'\<close>,
  \<open>AllChainsFailed\<close> is \<open>'All chains failed to settle batch'\<close>,
  \<open>NoAdapterFound\<close> is \<open>'No adapter found for chain ...'\<close>,
  \<open>NotConnected name\<close> is \<open>'<name> is not connected'\<close>, and
  \<open>SettlementFailed n e\<close> is \<open>'Failed to submit batch after <n> attempts: ...'\<close> with the
  last error caught.
\<close>

datatype js_error =
    Thrown string
  | NoAvailableChains
  | AllChainsFailed
  | NoAdapterFound ChainId
  | NotConnected string
  | SettlementFailed nat "js_error option"

text \<open>
  The interface \<open>ChainAdapter\<close>, as one router operation sees an adapter: its chain, its
  configured name, whether it is connected, and the outcome of each call the router and
  the strategies make on it. \<open>submitBatch a b n\<close> is the outcome of the call number \<open>n\<close>
  (from 0) of \<open>submitBatch(b)\<close> during the operation, since a retry can end differently.
\<close>

record ChainAdapter =
  adapterChainId :: ChainId
  configName :: string
  isConnected :: bool
  estimateGasCost :: "BatchSubmission \<Rightarrow> js_error + int"
  getMetrics :: "js_error + ChainMetrics"
  getFinalizationTime :: "js_error + real"
  submitBatch :: "BatchSubmission \<Rightarrow> nat \<Rightarrow> js_error + SettlementResult"

record SettlementDecision =
  chainId :: ChainId
  chainName :: string
  estimatedCost :: int
  estimatedTime :: real
  score :: real
  reason :: string

record SettlementStats =
  totalBatches :: nat
  chainUsage :: "(ChainId \<times> nat) list"
  totalCost :: int
  averageCost :: int
  averageTime :: real

datatype RoutingStrategy = CostOptimizedStrategy | SpeedOptimizedStrategy | BalancedStrategy

record SettlementRouter =
  adapters :: "(ChainId \<times> ChainAdapter) list"
  strategy :: RoutingStrategy
  stats :: SettlementStats

text \<open>\<open>Map.prototype.set\<close>: a key already present keeps its place.\<close>

fun map_set :: "'k \<Rightarrow> 'v \<Rightarrow> ('k \<times> 'v) list \<Rightarrow> ('k \<times> 'v) list" where
  "map_set k v [] = [(k, v)]"
| "map_set k v (e # m) = (if fst e = k then (k, v) # m else e # map_set k v m)"

text \<open>Division of two \<open>bigint\<close>s truncates towards zero.\<close>

definition bigint_div :: "int \<Rightarrow> int \<Rightarrow> int" where
  "bigint_div a b = sgn a * sgn b * (\<bar>a\<bar> div \<bar>b\<bar>)"

definition new_SettlementRouter :: "RoutingStrategy \<Rightarrow> SettlementRouter" where
  "new_SettlementRouter strategy' =
     \<lparr>adapters = [],
      strategy = strategy',
      stats = \<lparr>totalBatches = 0, chainUsage = [], totalCost = 0, averageCost = 0,
               averageTime = 0\<rparr>\<rparr>"

definition registerAdapter :: "SettlementRouter \<Rightarrow> ChainAdapter \<Rightarrow> SettlementRouter" where
  "registerAdapter r adapter =
     r\<lparr>adapters := map_set (adapterChainId adapter) adapter (adapters r),
       stats := (stats r)\<lparr>chainUsage := map_set (adapterChainId adapter) 0 (chainUsage (stats r))\<rparr>\<rparr>"

text \<open>
  \<open>Number(q)\<close> of a \<open>bigint\<close> is exact up to \<open>2 ^ 53\<close>; beyond, it is rounded, which the
  clamping to \<open>[0, 100]\<close> hides.
\<close>

definition normalizeCostScore :: "int \<Rightarrow> real" where
  "normalizeCostScore cost' =
     (let maxCost = (10::int) ^ 18;
          normalized = 100 - real_of_int (bigint_div (cost' * 100) maxCost)
      in max 0 (min 100 normalized))"

definition normalizeTimeScore :: "real \<Rightarrow> real" where
  "normalizeTimeScore time =
     (let maxTime = 300;
          normalized = 100 - (time / maxTime * 100)
      in max 0 (min 100 normalized))"

fun join :: "string \<Rightarrow> string list \<Rightarrow> string" where
  "join sep [] = []"
| "join sep [x] = x"
| "join sep (x # y # ys) = x @ sep @ join sep (y # ys)"

definition generateReason :: "real \<Rightarrow> real \<Rightarrow> real \<Rightarrow> string" where
  "generateReason costScore timeScore loadScore =
     (let factors = (if costScore > 70 then [''low cost''] else [])
                  @ (if timeScore > 70 then [''fast finality''] else [])
                  @ (if loadScore > 70 then [''low congestion''] else []);
          joined = join '', '' factors
      in if joined = [] then ''balanced'' else joined)"

text \<open>
  \<open>Array.prototype.sort\<close> is stable, and with a comparator that orders the elements
  consistently its result is the one stable sorted arrangement, whatever the engine's
  algorithm. \<open>sort_by\<close> computes it by insertion: an element goes before the first later
  element that the comparator does not put ahead of it.
\<close>

fun insert_by :: "('a \<Rightarrow> 'a \<Rightarrow> real) \<Rightarrow> 'a \<Rightarrow> 'a list \<Rightarrow> 'a list" where
  "insert_by cmp x [] = [x]"
| "insert_by cmp x (y # ys) = (if cmp x y \<le> 0 then x # y # ys else y # insert_by cmp x ys)"

definition sort_by :: "('a \<Rightarrow> 'a \<Rightarrow> real) \<Rightarrow> 'a list \<Rightarrow> 'a list" where
  "sort_by cmp xs = foldr (insert_by cmp) xs []"

text \<open>
  The body of the \<open>try\<close> block of \<open>analyzeBatch\<close>, once both queries have answered:
  the decision pushed for the chain.
\<close>

definition make_decision :: "ChainId \<Rightarrow> ChainAdapter \<Rightarrow> int \<Rightarrow> ChainMetrics \<Rightarrow> SettlementDecision" where
  "make_decision chainId' adapter cost' metrics =
     (let costScore = normalizeCostScore cost';
          timeScore = normalizeTimeScore (metricsFinalizationTime metrics);
          loadScore = 100 - chainLoad metrics;
          score' = (costScore * 0.5) + (timeScore * 0.3) + (loadScore * 0.2)
      in \<lparr>chainId = chainId',
          chainName = configName adapter,
          estimatedCost = cost',
          estimatedTime = metricsFinalizationTime metrics,
          score = score',
          reason = generateReason costScore timeScore loadScore\<rparr>)"

text \<open>
  The loop of \<open>analyzeBatch\<close> over the registry, with the array \<open>decisions\<close> as the
  accumulator. \<open>Promise.all\<close> rejects when either query does, and the \<open>catch\<close> then only
  logs: the adapter gets no decision.
\<close>

fun analyze_loop ::
  "BatchSubmission \<Rightarrow> (ChainId \<times> ChainAdapter) list \<Rightarrow> SettlementDecision list
     \<Rightarrow> SettlementDecision list" where
  "analyze_loop batch [] decisions = decisions"
| "analyze_loop batch (e # rest) decisions =
     (let chainId' = fst e; adapter = snd e
      in if \<not> isConnected adapter then analyze_loop batch rest decisions
         else case estimateGasCost adapter batch of
                Inl err \<Rightarrow> analyze_loop batch rest decisions
              | Inr cost' \<Rightarrow>
                  (case getMetrics adapter of
                     Inl err \<Rightarrow> analyze_loop batch rest decisions
                   | Inr metrics \<Rightarrow>
                       analyze_loop batch rest
                         (decisions @ [make_decision chainId' adapter cost' metrics])))"

definition analyzeBatch :: "SettlementRouter \<Rightarrow> BatchSubmission \<Rightarrow> SettlementDecision list" where
  "analyzeBatch r batch =
     sort_by (\<lambda>a b. score b - score a) (analyze_loop batch (adapters r) [])"

definition updateStats :: "SettlementStats \<Rightarrow> ChainId \<Rightarrow> SettlementResult \<Rightarrow> SettlementStats" where
  "updateStats st chainId' result =
     (let totalBatches' = totalBatches st + 1;
          currentCount = (case map_of (chainUsage st) chainId' of None \<Rightarrow> 0 | Some n \<Rightarrow> n);
          totalCost' = totalCost st + cost result
      in \<lparr>totalBatches = totalBatches',
          chainUsage = map_set chainId' (currentCount + 1) (chainUsage st),
          totalCost = totalCost',
          averageCost = bigint_div totalCost' (int totalBatches'),
          averageTime = (averageTime st * (real totalBatches' - 1) + finalizationTime result)
                          / real totalBatches'\<rparr>)"

text \<open>
  The retry loop of \<open>submitToChain\<close>: \<open>attempt\<close> is the loop counter, \<open>left\<close> the number
  of iterations still to run (\<open>maxRetries + 1\<close> at the start), \<open>lastError\<close> the error
  caught last. The five-second pause between attempts changes no value.
\<close>

fun submit_attempts ::
  "ChainAdapter \<Rightarrow> BatchSubmission \<Rightarrow> nat \<Rightarrow> nat \<Rightarrow> js_error option
     \<Rightarrow> js_error option + SettlementResult" where
  "submit_attempts adapter batch attempt 0 lastError = Inl lastError"
| "submit_attempts adapter batch attempt (Suc left) lastError =
     (case submitBatch adapter batch attempt of
        Inr result \<Rightarrow> Inr result
      | Inl err \<Rightarrow> submit_attempts adapter batch (attempt + 1) left (Some err))"

definition submitToChain ::
  "SettlementRouter \<Rightarrow> BatchSubmission \<Rightarrow> ChainId \<Rightarrow> nat
     \<Rightarrow> js_error + SettlementResult \<times> SettlementRouter" where
  "submitToChain r batch chainId' maxRetries =
     (case map_of (adapters r) chainId' of
        None \<Rightarrow> Inl (NoAdapterFound chainId')
      | Some adapter \<Rightarrow>
          if \<not> isConnected adapter then Inl (NotConnected (configName adapter))
          else (case submit_attempts adapter batch 0 (maxRetries + 1) None of
                  Inr result \<Rightarrow>
                    Inr (result, r\<lparr>stats := updateStats (stats r) chainId' result\<rparr>)
                | Inl lastError \<Rightarrow> Inl (SettlementFailed (maxRetries + 1) lastError)))"

fun failover_loop ::
  "SettlementRouter \<Rightarrow> BatchSubmission \<Rightarrow> SettlementDecision list
     \<Rightarrow> js_error + SettlementResult \<times> SettlementRouter" where
  "failover_loop r batch [] = Inl AllChainsFailed"
| "failover_loop r batch (decision # rest) =
     (case submitToChain r batch (chainId decision) 0 of
        Inr res \<Rightarrow> Inr res
      | Inl err \<Rightarrow> failover_loop r batch rest)"

definition submitBatchWithFailover ::
  "SettlementRouter \<Rightarrow> BatchSubmission \<Rightarrow> js_error + SettlementResult \<times> SettlementRouter" where
  "submitBatchWithFailover r batch =
     (let decisions = analyzeBatch r batch
      in if length decisions = 0 then Inl NoAvailableChains
         else failover_loop r batch decisions)"

subsection \<open>The routing strategies\<close>

text \<open>
  Each \<open>selectChain\<close> is a loop over the registry with the best chain so far and its
  figure as the accumulator. \<open>Number.MAX_SAFE_INTEGER\<close> is \<open>2 ^ 53 - 1\<close>.
\<close>

definition MAX_SAFE_INTEGER :: int where
  "MAX_SAFE_INTEGER = 2 ^ 53 - 1"

fun cost_loop ::
  "BatchSubmission \<Rightarrow> (ChainId \<times> ChainAdapter) list \<Rightarrow> ChainId option \<times> int
     \<Rightarrow> ChainId option \<times> int" where
  "cost_loop batch [] acc = acc"
| "cost_loop batch (e # rest) acc =
     (let chainId' = fst e; adapter = snd e; lowestCost = snd acc
      in if \<not> isConnected adapter then cost_loop batch rest acc
         else case estimateGasCost adapter batch of
                Inl err \<Rightarrow> cost_loop batch rest acc
              | Inr cost' \<Rightarrow>
                  if cost' < lowestCost then cost_loop batch rest (Some chainId', cost')
                  else cost_loop batch rest acc)"

definition CostOptimized_selectChain ::
  "BatchSubmission \<Rightarrow> (ChainId \<times> ChainAdapter) list \<Rightarrow> js_error + ChainId" where
  "CostOptimized_selectChain batch adapters' =
     (case fst (cost_loop batch adapters' (None, MAX_SAFE_INTEGER)) of
        None \<Rightarrow> Inl NoAvailableChains
      | Some cheapestChain \<Rightarrow> Inr cheapestChain)"

fun speed_loop ::
  "(ChainId \<times> ChainAdapter) list \<Rightarrow> ChainId option \<times> real \<Rightarrow> ChainId option \<times> real" where
  "speed_loop [] acc = acc"
| "speed_loop (e # rest) acc =
     (let chainId' = fst e; adapter = snd e; shortestTime = snd acc
      in if \<not> isConnected adapter then speed_loop rest acc
         else case getFinalizationTime adapter of
                Inl err \<Rightarrow> speed_loop rest acc
              | Inr time \<Rightarrow>
                  if time < shortestTime then speed_loop rest (Some chainId', time)
                  else speed_loop rest acc)"

definition SpeedOptimized_selectChain ::
  "BatchSubmission \<Rightarrow> (ChainId \<times> ChainAdapter) list \<Rightarrow> js_error + ChainId" where
  "SpeedOptimized_selectChain batch adapters' =
     (case fst (speed_loop adapters' (None, real_of_int MAX_SAFE_INTEGER)) of
        None \<Rightarrow> Inl NoAvailableChains
      | Some fastestChain \<Rightarrow> Inr fastestChain)"

text \<open>
  \<open>BalancedStrategy.normalizeCost\<close> and \<open>normalizeTime\<close> have the bodies of the router's
  \<open>normalizeCostScore\<close> and \<open>normalizeTimeScore\<close>. \<open>Balanced_score\<close> is the score the
  loop body computes for one chain from its cost and metrics.
\<close>

definition normalizeCost :: "int \<Rightarrow> real" where
  "normalizeCost cost' =
     (let maxCost = (10::int) ^ 18;
          normalized = 100 - real_of_int (bigint_div (cost' * 100) maxCost)
      in max 0 (min 100 normalized))"

definition normalizeTime :: "real \<Rightarrow> real" where
  "normalizeTime time =
     (let maxTime = 300;
          normalized = 100 - (time / maxTime * 100)
      in max 0 (min 100 normalized))"

definition Balanced_score :: "int \<Rightarrow> ChainMetrics \<Rightarrow> real" where
  "Balanced_score cost' metrics =
     (let costScore = normalizeCost cost';
          timeScore = normalizeTime (metricsFinalizationTime metrics);
          loadScore = 100 - chainLoad metrics
      in (costScore * 0.4) + (timeScore * 0.4) + (loadScore * 0.2))"

fun balanced_loop ::
  "BatchSubmission \<Rightarrow> (ChainId \<times> ChainAdapter) list \<Rightarrow> ChainId option \<times> real
     \<Rightarrow> ChainId option \<times> real" where
  "balanced_loop batch [] acc = acc"
| "balanced_loop batch (e # rest) acc =
     (let chainId' = fst e; adapter = snd e; bestScore = snd acc
      in if \<not> isConnected adapter then balanced_loop batch rest acc
         else case estimateGasCost adapter batch of
                Inl err \<Rightarrow> balanced_loop batch rest acc
              | Inr cost' \<Rightarrow>
                  (case getMetrics adapter of
                     Inl err \<Rightarrow> balanced_loop batch rest acc
                   | Inr metrics \<Rightarrow>
                       let score' = Balanced_score cost' metrics
                       in if score' > bestScore
                          then balanced_loop batch rest (Some chainId', score')
                          else balanced_loop batch rest acc))"

definition Balanced_selectChain ::
  "BatchSubmission \<Rightarrow> (ChainId \<times> ChainAdapter) list \<Rightarrow> js_error + ChainId" where
  "Balanced_selectChain batch adapters' =
     (case fst (balanced_loop batch adapters' (None, - 1)) of
        None \<Rightarrow> Inl NoAvailableChains
      | Some bestChain \<Rightarrow> Inr bestChain)"

fun selectChain ::
  "RoutingStrategy \<Rightarrow> BatchSubmission \<Rightarrow> (ChainId \<times> ChainAdapter) list \<Rightarrow> js_error + ChainId" where
  "selectChain CostOptimizedStrategy = CostOptimized_selectChain"
| "selectChain SpeedOptimizedStrategy = SpeedOptimized_selectChain"
| "selectChain BalancedStrategy = Balanced_selectChain"

definition submitBatch_router ::
  "SettlementRouter \<Rightarrow> BatchSubmission \<Rightarrow> nat
     \<Rightarrow> js_error + SettlementResult \<times> SettlementRouter" where
  "submitBatch_router r batch maxRetries =
     (case selectChain (strategy r) batch (adapters r) of
        Inl err \<Rightarrow> Inl err
      | Inr selectedChainId \<Rightarrow> submitToChain r batch selectedChainId maxRetries)"

subsection \<open>EthereumAdapter.estimateGasCost\<close>

text \<open>
  The fields of an \<open>EthereumAdapter\<close> that cost estimation reads (\<open>settlementContract\<close>
  and \<open>provider\<close> say whether the field holds an object or \<open>null\<close>), and the outcome of
  the three calls it makes outside the adapter: encoding the batch (\<open>keccak256\<close> and the
  ABI coder throw on malformed input), \<open>submitBatch.estimateGas\<close> on the contract, and
  \<open>provider.getFeeData()\<close>, whose \<open>gasPrice\<close> can be \<open>null\<close>.
\<close>

record EthereumAdapter =
  ethConfigName :: string
  settlementContract :: bool
  provider :: bool
  encodeBatch :: "BatchSubmission \<Rightarrow> js_error + string"
  estimateGas :: "BatchSubmission \<Rightarrow> string \<Rightarrow> js_error + int"
  getFeeData :: "js_error + int option"

definition getCurrentGasPrice :: "EthereumAdapter \<Rightarrow> js_error + int" where
  "getCurrentGasPrice a =
     (if \<not> provider a then Inl (Thrown (ethConfigName a @ '' adapter not connected''))
      else case getFeeData a of
             Inl err \<Rightarrow> Inl err
           | Inr feeData_gasPrice \<Rightarrow>
               Inr (case feeData_gasPrice of
                      None \<Rightarrow> 0
                    | Some p \<Rightarrow> if p = 0 then 0 else p))"

definition eth_estimateGasCost :: "EthereumAdapter \<Rightarrow> BatchSubmission \<Rightarrow> js_error + int" where
  "eth_estimateGasCost a batch =
     (if \<not> settlementContract a then Inl (Thrown (ethConfigName a @ '' adapter not connected''))
      else case encodeBatch a batch of
             Inl err \<Rightarrow> Inr (10 ^ 18)
           | Inr batchData \<Rightarrow>
               (case estimateGas a batch batchData of
                  Inl err \<Rightarrow> Inr (10 ^ 18)
                | Inr gasEstimate \<Rightarrow>
                    (case getCurrentGasPrice a of
                       Inl err \<Rightarrow> Inr (10 ^ 18)
                     | Inr gasPrice' \<Rightarrow> Inr (gasEstimate * gasPrice'))))"


subsection \<open>Vocabulary of the statements\<close>

definition succeeds :: "'e + 'a \<Rightarrow> bool" where
  "succeeds x = (case x of Inl e \<Rightarrow> False | Inr v \<Rightarrow> True)"

text \<open>
  An entry of the registry is scorable for a batch when its adapter is connected and
  both its cost estimate and its metrics query answer.
\<close>

definition scorable :: "BatchSubmission \<Rightarrow> ChainId \<times> ChainAdapter \<Rightarrow> bool" where
  "scorable batch e \<longleftrightarrow>
     isConnected (snd e) \<and> succeeds (estimateGasCost (snd e) batch) \<and> succeeds (getMetrics (snd e))"


section \<open>Example ledgers\<close>

text \<open>
  A ledger deployed by account 1 with sequencer 2, a challenge period of 100 seconds and a
  bond of 1000 wei; every account accepts payments. The sequencer deposits 1500 wei and
  commits a state root at time 10; account 3 then challenges the commitment at time 20.
  In \<open>ex_withdrawn\<close> the sequencer withdraws its whole bond before the challenge, and in
  \<open>ex_forever\<close> the challenge period is the largest \<open>uint256\<close>.
\<close>

definition ex_ctx :: "address \<Rightarrow> uint256 \<Rightarrow> ctx" where
  "ex_ctx who now =
     \<lparr>msg_sender = who, block_timestamp = now, block_number = 1, accepts = (\<lambda>_. True)\<rparr>"

definition ex_committed :: rollup where
  "ex_committed =
     run (initialize 1 2 100 1000) [DepositBond (ex_ctx 2 10) 1500, CommitState (ex_ctx 2 10) 7]"

definition ex_challenged :: rollup where
  "ex_challenged = run ex_committed [ChallengeState (ex_ctx 3 20) 1000 0 5 6 []]"

definition ex_withdrawn :: rollup where
  "ex_withdrawn =
     run ex_committed
       [WithdrawBondAll (ex_ctx 2 11), ChallengeState (ex_ctx 3 20) 1000 0 5 6 []]"

definition ex_forever :: rollup where
  "ex_forever =
     run (initialize 1 2 0xFFFFFFFFFFFFFFFFFFFFFFFFFFFFFFFFFFFFFFFFFFFFFFFFFFFFFFFFFFFFFFFF 1000)
       [DepositBond (ex_ctx 2 10) 1500, CommitState (ex_ctx 2 10) 7]"

definition ex_finalized :: rollup where
  "ex_finalized = run ex_committed [FinalizeState (ex_ctx 9 111) 0]"

section \<open>Example routers\<close>

text \<open>
  A connected adapter with a fixed cost estimate, finalization time and submission
  outcome, a chain load of 50, and variants whose metrics query or whose every
  submission throws.
\<close>

definition ex_batch :: BatchSubmission where
  "ex_batch = \<lparr>batchIndex = 1, batchRoot = ''0xabc'', transactions = [],
     batchStateRoot = ''0xdef'', batchTimestamp = 0\<rparr>"

definition ex_metrics :: "real \<Rightarrow> ChainMetrics" where
  "ex_metrics time = \<lparr>gasPrice = 1, blockTime = 12, metricsFinalizationTime = time,
     chainLoad = 50, lastUpdated = 0\<rparr>"

definition ex_result :: "string \<Rightarrow> SettlementResult" where
  "ex_result h = \<lparr>success = True, txHash = h, resultBlockNumber = 1, gasUsed = 21000,
     cost = 42000, finalizationTime = 900\<rparr>"

definition ex_adapter :: "ChainId \<Rightarrow> string \<Rightarrow> int \<Rightarrow> real \<Rightarrow> ChainAdapter" where
  "ex_adapter k n c time =
     \<lparr>adapterChainId = k, configName = n, isConnected = True,
      estimateGasCost = (\<lambda>_. Inr c),
      getMetrics = Inr (ex_metrics time),
      getFinalizationTime = Inr time,
      submitBatch = (\<lambda>_ _. Inr (ex_result n))\<rparr>"

definition ex_failing :: "ChainAdapter \<Rightarrow> ChainAdapter" where
  "ex_failing a = a\<lparr>submitBatch := (\<lambda>_ _. Inl (Thrown ''transaction reverted''))\<rparr>"

definition ex_no_metrics :: "ChainAdapter \<Rightarrow> ChainAdapter" where
  "ex_no_metrics a = a\<lparr>getMetrics := Inl (Thrown ''getFeeData failed'')\<rparr>"

text \<open>
  Three chains registered in the order Ethereum, BSC, Polygon. Ethereum and Polygon get
  the same score and outrank BSC; every submission to Ethereum throws.
\<close>

definition ex_router :: SettlementRouter where
  "ex_router =
     registerAdapter
       (registerAdapter
          (registerAdapter (new_SettlementRouter BalancedStrategy)
             (ex_failing (ex_adapter ETHEREUM ''Ethereum'' (10 ^ 15) 36)))
          (ex_adapter BSC ''BSC'' (5 * 10 ^ 17) 36))
       (ex_adapter POLYGON ''Polygon'' (2 * 10 ^ 15) 36)"

text \<open>The same three chains with every submission throwing.\<close>

definition ex_router_down :: SettlementRouter where
  "ex_router_down =
     registerAdapter
       (registerAdapter
          (registerAdapter (new_SettlementRouter BalancedStrategy)
             (ex_failing (ex_adapter ETHEREUM ''Ethereum'' (10 ^ 15) 36)))
          (ex_failing (ex_adapter BSC ''BSC'' (5 * 10 ^ 17) 36)))
       (ex_failing (ex_adapter POLYGON ''Polygon'' (2 * 10 ^ 15) 36))"

text \<open>Two connected chains; the metrics query of the second throws.\<close>

definition ex_router_no_metrics :: SettlementRouter where
  "ex_router_no_metrics =
     registerAdapter
       (registerAdapter (new_SettlementRouter BalancedStrategy)
          (ex_adapter ETHEREUM ''Ethereum'' (10 ^ 15) 36))
       (ex_no_metrics (ex_adapter BSC ''BSC'' (10 ^ 15) 9))"

text \<open>
  Three connected chains with the costs 100, 5 and 2 wei, registered in that order, and
  the same finalization time and load.
\<close>

definition ex_router_100_5_2 :: SettlementRouter where
  "ex_router_100_5_2 =
     registerAdapter
       (registerAdapter
          (registerAdapter (new_SettlementRouter BalancedStrategy)
             (ex_adapter ETHEREUM ''Ethereum'' 100 36))
          (ex_adapter BSC ''BSC'' 5 36))
       (ex_adapter POLYGON ''Polygon'' 2 36)"

text \<open>
  An Ethereum adapter that is connected and whose every outside call answers, and the
  same adapter disconnected.
\<close>

definition ex_eth :: EthereumAdapter where
  "ex_eth = \<lparr>ethConfigName = ''Ethereum'', settlementContract = True, provider = True,
     encodeBatch = (\<lambda>_. Inr ''0x00''),
     estimateGas = (\<lambda>_ _. Inr 100000),
     getFeeData = Inr (Some 20000000000)\<rparr>"

definition ex_eth_disconnected :: EthereumAdapter where
  "ex_eth_disconnected = ex_eth\<lparr>settlementContract := False, provider := False\<rparr>"

section \<open>Properties of the ledger\<close>

lemmas ex_defs = ex_committed_def ex_challenged_def ex_withdrawn_def ex_forever_def
  ex_finalized_def ex_ctx_def initialize_def after_def depositBond_def commitState_def
  challengeState_def withdrawBond_all_def withdrawBond_def finalizeState_def finalizeStates_def
  transfer_def overflows_def zeroCommitment_def zeroProof_def resolveChallenge_def Let_def
  succeeds_def

subsection \<open>Checked arithmetic\<close>

lemma no_overflow_le: "\<not> overflows a b \<Longrightarrow> a \<le> a + b"
  unfolding overflows_def by (simp add: no_olen_add_nat)

lemma no_overflow_unat: "\<not> overflows a b \<Longrightarrow> unat (a + b) = unat a + unat b"
  using unat_add_lem[of a b] by (simp add: overflows_def)

lemma no_overflow_less_succ: "\<not> overflows a 1 \<Longrightarrow> i < a \<Longrightarrow> i < a + 1"
  using no_overflow_le[of a 1] by simp

lemma window_open:
  "unat now \<le> unat ts + unat cp \<Longrightarrow> \<not> overflows ts cp \<Longrightarrow> \<not> now > ts + cp"
  by (simp add: no_overflow_unat word_less_nat_alt)

lemma window_closed:
  fixes now ts cp :: uint256
  assumes late: "unat now > unat ts + unat cp"
  shows "\<not> overflows ts cp \<and> now > ts + cp"
proof -
  have "unat now < 2 ^ 256" using unsigned_less[of now] by simp
  with late have "\<not> overflows ts cp" by (simp add: overflows_def)
  with late show ?thesis by (simp add: no_overflow_unat word_less_nat_alt)
qed

subsection \<open>What a call leaves alone\<close>

lemma transfer_Inr:
  "transfer c to amt (s, p) = Inr (s', p') \<Longrightarrow>
     s' = s\<lparr>balance := balance s - unat amt\<rparr> \<and> p' = p @ [(to, amt)]
     \<and> unat amt \<le> balance s \<and> accepts c to"
  by (auto simp: transfer_def split: if_splits)

lemma loop_frame:
  "finalizeStates_loop c is s = Inr s' \<Longrightarrow>
     bonds s' = bonds s \<and> fraudProofs s' = fraudProofs s
     \<and> currentCommitmentIndex s' = currentCommitmentIndex s
     \<and> currentProofIndex s' = currentProofIndex s \<and> balance s' = balance s"
proof (induction "is" arbitrary: s)
  case Nil
  then show ?case by simp
next
  case (Cons i "is")
  then show ?case
    by (auto simp: Let_def split: if_splits)
qed

lemma loop_finalized:
  "finalizeStates_loop c is s = Inr s' \<Longrightarrow> finalized (stateCommitments s k)
     \<Longrightarrow> finalized (stateCommitments s' k)"
proof (induction "is" arbitrary: s)
  case Nil
  then show ?case by simp
next
  case (Cons i "is")
  then show ?case
    by (auto simp: Let_def split: if_splits)
qed

subsection \<open>Bond balances only go down by a withdrawal or a slashing\<close>

lemma step_bonds:
  assumes "step s x = Inr (s', paid)" and "\<not> debits s a x"
  shows "bonds s a \<le> bonds s' a"
proof (cases x)
  case (CommitState c r)
  with assms show ?thesis by (auto simp: commitState_def split: if_splits)
next
  case (ChallengeState c v j pre post p)
  with assms show ?thesis by (auto simp: challengeState_def split: if_splits)
next
  case (ResolveChallenge c j f)
  with assms show ?thesis
    by (auto simp: resolveChallenge_def Let_def split: if_splits sum.splits prod.splits
        dest!: transfer_Inr)
next
  case (FinalizeState c j)
  with assms show ?thesis by (auto simp: finalizeState_def Let_def split: if_splits)
next
  case (FinalizeStates c)
  with assms show ?thesis by (auto simp: finalizeStates_def split: sum.splits dest: loop_frame)
next
  case (DepositBond c v)
  with assms show ?thesis by (auto simp: depositBond_def no_overflow_le split: if_splits)
next
  case (WithdrawBond c amt)
  with assms show ?thesis by (auto simp: withdrawBond_def split: if_splits dest!: transfer_Inr)
next
  case (WithdrawBondAll c)
  with assms show ?thesis
    by (auto simp: withdrawBond_all_def Let_def split: if_splits dest!: transfer_Inr)
next
  case (SetSequencer c a')
  with assms show ?thesis by (auto simp: setSequencer_def split: if_splits)
next
  case (SetChallengePeriod c p)
  with assms show ?thesis by (auto simp: setChallengePeriod_def split: if_splits)
qed

lemma after_bonds: "\<not> debits s a x \<Longrightarrow> bonds s a \<le> bonds (after s x) a"
  by (auto simp: after_def split: sum.splits dest: step_bonds)

lemma run_bonds: "quiet s a xs \<Longrightarrow> bonds s a \<le> bonds (run s xs) a"
proof (induction xs arbitrary: s)
  case Nil
  then show ?case by simp
next
  case (Cons x xs)
  then have "bonds s a \<le> bonds (after s x) a"
    and "bonds (after s x) a \<le> bonds (run (after s x) xs) a"
    by (simp_all add: after_bonds)
  then show ?case by simp
qed

text \<open>
  C5. Whatever the address and the calls: a call that lowers the address's bond balance is
  a \<open>withdrawBond\<close> made by that address or a \<open>resolveChallenge\<close> with
  \<open>fraudulent = true\<close> against a commitment the address proposed; over a sequence of
  calls containing neither, the balance never goes below its starting value; and
  \<open>withdrawBond\<close> with an amount above the caller's balance reverts, the storage
  unchanged.
\<close>

theorem bond_decreases_only_by_withdraw_or_slash:
  "(step s x = Inr (s', paid) \<and> bonds s' a < bonds s a \<longrightarrow> debits s a x)
   \<and> (quiet s a xs \<longrightarrow> bonds s a \<le> bonds (run s xs) a)
   \<and> (bonds s (msg_sender c) < amount \<longrightarrow>
         withdrawBond s c amount = Inl (Revert ''Insufficient bond balance'')
         \<and> after s (WithdrawBond c amount) = s)"
proof (intro conjI impI)
  assume "step s x = Inr (s', paid) \<and> bonds s' a < bonds s a"
  then have st: "step s x = Inr (s', paid)" and lt: "bonds s' a < bonds s a"
    by simp_all
  show "debits s a x"
  proof (rule ccontr)
    assume "\<not> debits s a x"
    then have "bonds s a \<le> bonds s' a" by (rule step_bonds[OF st])
    with lt show False by (simp add: leD)
  qed
next
  assume "quiet s a xs"
  then show "bonds s a \<le> bonds (run s xs) a" by (rule run_bonds)
next
  assume short: "bonds s (msg_sender c) < amount"
  then show "withdrawBond s c amount = Inl (Revert ''Insufficient bond balance'')"
    by (auto simp: withdrawBond_def dest: leD)
  then show "after s (WithdrawBond c amount) = s"
    by (simp add: after_def)
qed

theorem bond_decreases_only_by_withdraw_or_slash_witness:
  "step ex_committed (WithdrawBond (ex_ctx 2 11) 400)
     = Inr (after ex_committed (WithdrawBond (ex_ctx 2 11) 400), [(2, 400)])
   \<and> bonds (after ex_committed (WithdrawBond (ex_ctx 2 11) 400)) 2 < bonds ex_committed 2
   \<and> debits ex_committed 2 (WithdrawBond (ex_ctx 2 11) 400)
   \<and> quiet ex_committed 2
       [DepositBond (ex_ctx 2 12) 5, ChallengeState (ex_ctx 3 20) 1000 0 5 6 [],
        FinalizeStates (ex_ctx 4 200), WithdrawBond (ex_ctx 3 201) 0]
   \<and> bonds ex_committed 2
       \<le> bonds (run ex_committed
           [DepositBond (ex_ctx 2 12) 5, ChallengeState (ex_ctx 3 20) 1000 0 5 6 [],
            FinalizeStates (ex_ctx 4 200), WithdrawBond (ex_ctx 3 201) 0]) 2
   \<and> bonds ex_committed (msg_sender (ex_ctx 2 11)) < 2000
   \<and> withdrawBond ex_committed (ex_ctx 2 11) 2000 = Inl (Revert ''Insufficient bond balance'')"
  using bond_decreases_only_by_withdraw_or_slash
    [of ex_committed "WithdrawBond (ex_ctx 2 11) 400"
        "after ex_committed (WithdrawBond (ex_ctx 2 11) 400)" "[(2, 400)]" 2
        "[DepositBond (ex_ctx 2 12) 5, ChallengeState (ex_ctx 3 20) 1000 0 5 6 [],
          FinalizeStates (ex_ctx 4 200), WithdrawBond (ex_ctx 3 201) 0]"
        "ex_ctx 2 11" 2000]
  by (simp add: ex_defs)

subsection \<open>Finalized commitments and resolved challenges stay so\<close>

lemma step_finalized:
  assumes "step s x = Inr (s', paid)" and "i < currentCommitmentIndex s"
    and "finalized (stateCommitments s i)"
  shows "i < currentCommitmentIndex s' \<and> finalized (stateCommitments s' i)"
proof (cases x)
  case (CommitState c r)
  with assms show ?thesis by (auto simp: commitState_def no_overflow_less_succ split: if_splits)
next
  case (ChallengeState c v j pre post p)
  with assms show ?thesis by (auto simp: challengeState_def split: if_splits)
next
  case (ResolveChallenge c j f)
  with assms show ?thesis
    by (auto simp: resolveChallenge_def Let_def split: if_splits sum.splits prod.splits
        dest!: transfer_Inr)
next
  case (FinalizeState c j)
  with assms show ?thesis by (auto simp: finalizeState_def Let_def split: if_splits)
next
  case (FinalizeStates c)
  with assms show ?thesis
    by (auto simp: finalizeStates_def split: sum.splits dest: loop_frame loop_finalized)
next
  case (DepositBond c v)
  with assms show ?thesis by (auto simp: depositBond_def split: if_splits)
next
  case (WithdrawBond c amt)
  with assms show ?thesis by (auto simp: withdrawBond_def split: if_splits dest!: transfer_Inr)
next
  case (WithdrawBondAll c)
  with assms show ?thesis
    by (auto simp: withdrawBond_all_def Let_def split: if_splits dest!: transfer_Inr)
next
  case (SetSequencer c a')
  with assms show ?thesis by (auto simp: setSequencer_def split: if_splits)
next
  case (SetChallengePeriod c p)
  with assms show ?thesis by (auto simp: setChallengePeriod_def split: if_splits)
qed

lemma run_finalized:
  "i < currentCommitmentIndex s \<Longrightarrow> finalized (stateCommitments s i)
     \<Longrightarrow> i < currentCommitmentIndex (run s xs) \<and> finalized (stateCommitments (run s xs) i)"
proof (induction xs arbitrary: s)
  case Nil
  then show ?case by simp
next
  case (Cons x xs)
  have "i < currentCommitmentIndex (after s x) \<and> finalized (stateCommitments (after s x) i)"
    using Cons.prems step_finalized[of s x _ _ i]
    by (cases "step s x") (auto simp: after_def)
  then show ?case using Cons.IH by simp
qed

lemma step_resolved:
  assumes "step s x = Inr (s', paid)" and "i < currentProofIndex s"
    and "resolved (fraudProofs s i)"
  shows "i < currentProofIndex s' \<and> resolved (fraudProofs s' i)"
proof (cases x)
  case (CommitState c r)
  with assms show ?thesis by (auto simp: commitState_def split: if_splits)
next
  case (ChallengeState c v j pre post p)
  with assms show ?thesis
    by (auto simp: challengeState_def no_overflow_less_succ split: if_splits)
next
  case (ResolveChallenge c j f)
  with assms show ?thesis
    by (auto simp: resolveChallenge_def Let_def split: if_splits sum.splits prod.splits
        dest!: transfer_Inr)
next
  case (FinalizeState c j)
  with assms show ?thesis by (auto simp: finalizeState_def Let_def split: if_splits)
next
  case (FinalizeStates c)
  with assms show ?thesis
    by (auto simp: finalizeStates_def split: sum.splits dest: loop_frame)
next
  case (DepositBond c v)
  with assms show ?thesis by (auto simp: depositBond_def split: if_splits)
next
  case (WithdrawBond c amt)
  with assms show ?thesis by (auto simp: withdrawBond_def split: if_splits dest!: transfer_Inr)
next
  case (WithdrawBondAll c)
  with assms show ?thesis
    by (auto simp: withdrawBond_all_def Let_def split: if_splits dest!: transfer_Inr)
next
  case (SetSequencer c a')
  with assms show ?thesis by (auto simp: setSequencer_def split: if_splits)
next
  case (SetChallengePeriod c p)
  with assms show ?thesis by (auto simp: setChallengePeriod_def split: if_splits)
qed

lemma run_resolved:
  "i < currentProofIndex s \<Longrightarrow> resolved (fraudProofs s i)
     \<Longrightarrow> i < currentProofIndex (run s xs) \<and> resolved (fraudProofs (run s xs) i)"
proof (induction xs arbitrary: s)
  case Nil
  then show ?case by simp
next
  case (Cons x xs)
  have "i < currentProofIndex (after s x) \<and> resolved (fraudProofs (after s x) i)"
    using Cons.prems step_resolved[of s x _ _ i]
    by (cases "step s x") (auto simp: after_def)
  then show ?case using Cons.IH by simp
qed

subsection \<open>finalizeState\<close>

lemma finalizeState_early:
  assumes "unat (block_timestamp c)
             \<le> unat (timestamp (stateCommitments s i)) + unat (challengePeriod s)"
  shows "\<exists>e. finalizeState s c i = Inl e"
  using assms window_open[OF assms]
  by (auto simp: finalizeState_def Let_def)

lemma finalizeState_late:
  assumes "i < currentCommitmentIndex s" "\<not> finalized (stateCommitments s i)"
    "unat (block_timestamp c)
       > unat (timestamp (stateCommitments s i)) + unat (challengePeriod s)"
  shows "finalizeState s c i =
           Inr (s\<lparr>stateCommitments := (stateCommitments s)
                    (i := (stateCommitments s i)\<lparr>finalized := True\<rparr>)\<rparr>, [])"
  using assms window_closed[OF assms(3)]
  by (auto simp: finalizeState_def Let_def)

lemma finalizeState_success:
  assumes "finalizeState s c i = Inr (s', paid)"
  shows "i < currentCommitmentIndex s' \<and> finalized (stateCommitments s' i)
    \<and> (\<forall>c'. finalizeState s' c' i = Inl (Revert ''State already finalized''))"
  using assms
  by (auto simp: finalizeState_def Let_def split: if_splits)

lemma finalizeState_ignores_challenges:
  "finalizeState (s\<lparr>fraudProofs := fp, currentProofIndex := n\<rparr>) c i =
     (case finalizeState s c i of
        Inl e \<Rightarrow> Inl e
      | Inr (s', paid) \<Rightarrow> Inr (s'\<lparr>fraudProofs := fp, currentProofIndex := n\<rparr>, paid))"
  by (auto simp: finalizeState_def Let_def)

text \<open>
  C4. While the time is at most \<open>commitTime + challengePeriod\<close>, \<open>finalizeState\<close>
  reverts and the storage stays as it was. After that instant it succeeds on an existing,
  not yet finalized commitment and sets \<open>finalized\<close>. Once it has succeeded, every
  further call on that commitment reverts with \<open>State already finalized\<close>, and no sequence
  of calls to the ledger makes a finalized commitment unfinalized. The challenges recorded
  in the ledger, resolved or not, do not enter the result.
\<close>

theorem finalizeState_exactly_once:
  "(unat (block_timestamp c1)
      \<le> unat (timestamp (stateCommitments s i)) + unat (challengePeriod s) \<longrightarrow>
        (\<exists>e. finalizeState s c1 i = Inl e) \<and> after s (FinalizeState c1 i) = s)
   \<and> (i < currentCommitmentIndex s \<and> \<not> finalized (stateCommitments s i)
        \<and> unat (block_timestamp c2)
             > unat (timestamp (stateCommitments s i)) + unat (challengePeriod s) \<longrightarrow>
        finalizeState s c2 i =
          Inr (s\<lparr>stateCommitments := (stateCommitments s)
                   (i := (stateCommitments s i)\<lparr>finalized := True\<rparr>)\<rparr>, []))
   \<and> (finalizeState s c2 i = Inr (s', paid) \<longrightarrow>
        finalized (stateCommitments s' i)
        \<and> (\<forall>c'. finalizeState s' c' i = Inl (Revert ''State already finalized'')))
   \<and> (j < currentCommitmentIndex t \<and> finalized (stateCommitments t j) \<longrightarrow>
        (\<forall>c'. finalizeState t c' j = Inl (Revert ''State already finalized''))
        \<and> (\<forall>xs. finalized (stateCommitments (run t xs) j)))
   \<and> finalizeState (s\<lparr>fraudProofs := fp, currentProofIndex := n\<rparr>) c2 i =
        (case finalizeState s c2 i of
           Inl e \<Rightarrow> Inl e
         | Inr (s', paid) \<Rightarrow> Inr (s'\<lparr>fraudProofs := fp, currentProofIndex := n\<rparr>, paid))"
proof (intro conjI impI allI)
  assume early: "unat (block_timestamp c1)
      \<le> unat (timestamp (stateCommitments s i)) + unat (challengePeriod s)"
  then show "\<exists>e. finalizeState s c1 i = Inl e" by (rule finalizeState_early)
  then show "after s (FinalizeState c1 i) = s" by (auto simp: after_def)
next
  assume "i < currentCommitmentIndex s \<and> \<not> finalized (stateCommitments s i)
        \<and> unat (block_timestamp c2)
             > unat (timestamp (stateCommitments s i)) + unat (challengePeriod s)"
  then show "finalizeState s c2 i =
          Inr (s\<lparr>stateCommitments := (stateCommitments s)
                   (i := (stateCommitments s i)\<lparr>finalized := True\<rparr>)\<rparr>, [])"
    by (simp add: finalizeState_late)
next
  assume ok: "finalizeState s c2 i = Inr (s', paid)"
  show "finalized (stateCommitments s' i)"
    using finalizeState_success[OF ok] by simp
  show "finalizeState s' c' i = Inl (Revert ''State already finalized'')" for c'
    using finalizeState_success[OF ok] by simp
next
  assume fin: "j < currentCommitmentIndex t \<and> finalized (stateCommitments t j)"
  show "finalizeState t c' j = Inl (Revert ''State already finalized'')" for c'
    using fin by (simp add: finalizeState_def Let_def)
  show "finalized (stateCommitments (run t xs) j)" for xs
    using fin run_finalized[of j t xs] by simp
next
  show "finalizeState (s\<lparr>fraudProofs := fp, currentProofIndex := n\<rparr>) c2 i =
        (case finalizeState s c2 i of
           Inl e \<Rightarrow> Inl e
         | Inr (s', paid) \<Rightarrow> Inr (s'\<lparr>fraudProofs := fp, currentProofIndex := n\<rparr>, paid))"
    by (rule finalizeState_ignores_challenges)
qed

theorem finalizeState_exactly_once_witness:
  "unat (block_timestamp (ex_ctx 9 110))
      \<le> unat (timestamp (stateCommitments ex_challenged 0)) + unat (challengePeriod ex_challenged)
   \<and> finalizeState ex_challenged (ex_ctx 9 110) 0 = Inl (Revert ''Challenge period not expired'')
   \<and> 0 < currentCommitmentIndex ex_challenged
   \<and> \<not> finalized (stateCommitments ex_challenged 0)
   \<and> unat (block_timestamp (ex_ctx 9 111))
        > unat (timestamp (stateCommitments ex_challenged 0)) + unat (challengePeriod ex_challenged)
   \<and> finalizeState ex_challenged (ex_ctx 9 111) 0
        = Inr (after ex_challenged (FinalizeState (ex_ctx 9 111) 0), [])
   \<and> finalized (stateCommitments (after ex_challenged (FinalizeState (ex_ctx 9 111) 0)) 0)
   \<and> finalizeState (after ex_challenged (FinalizeState (ex_ctx 9 111) 0)) (ex_ctx 9 112) 0
        = Inl (Revert ''State already finalized'')
   \<and> 0 < currentCommitmentIndex ex_finalized
   \<and> finalized (stateCommitments ex_finalized 0)
   \<and> finalized (stateCommitments
        (run ex_finalized [CommitState (ex_ctx 2 120) 8, FinalizeStates (ex_ctx 2 500)]) 0)"
  using finalizeState_exactly_once
    [of "ex_ctx 9 110" ex_challenged 0 "ex_ctx 9 111"
        "after ex_challenged (FinalizeState (ex_ctx 9 111) 0)" "[]" 0 ex_finalized]
  by (simp add: ex_defs upt_rec)


subsection \<open>resolveChallenge\<close>

lemma resolve_honest_Inr:
  assumes "resolveChallenge s c i False = Inr (s', paid)"
  shows "msg_sender c = owner s \<and> i < currentProofIndex s \<and> \<not> resolved (fraudProofs s i)
    \<and> unat (bondAmount s) \<le> balance s
    \<and> s' = s\<lparr>fraudProofs := (fraudProofs s)(i := (fraudProofs s i)\<lparr>resolved := True\<rparr>),
             balance := balance s - unat (bondAmount s)\<rparr>
    \<and> paid = [(proposer (stateCommitments s (commitmentIndex (fraudProofs s i))), bondAmount s)]"
  using assms
  by (auto simp: resolveChallenge_def Let_def split: if_splits dest!: transfer_Inr)

lemma resolve_honest_ok:
  assumes "msg_sender c = owner s" "i < currentProofIndex s" "\<not> resolved (fraudProofs s i)"
    "unat (bondAmount s) \<le> balance s"
    "accepts c (proposer (stateCommitments s (commitmentIndex (fraudProofs s i))))"
  shows "resolveChallenge s c i False =
     Inr (s\<lparr>fraudProofs := (fraudProofs s)(i := (fraudProofs s i)\<lparr>resolved := True\<rparr>),
             balance := balance s - unat (bondAmount s)\<rparr>,
          [(proposer (stateCommitments s (commitmentIndex (fraudProofs s i))), bondAmount s)])"
  using assms
  by (auto simp: resolveChallenge_def Let_def transfer_def)

lemma resolve_fraud_Inr:
  assumes "resolveChallenge s c i True = Inr (s', paid)"
  shows "i < currentProofIndex s"
    and "max (unat (bondAmount s))
         (unat (bonds s (proposer (stateCommitments s (commitmentIndex (fraudProofs s i))))))
         \<le> balance s"
    and "s' = s\<lparr>fraudProofs := (fraudProofs s)(i := (fraudProofs s i)\<lparr>resolved := True\<rparr>),
             bonds := (bonds s)
               (proposer (stateCommitments s (commitmentIndex (fraudProofs s i))) := 0),
             balance := balance s - max (unat (bondAmount s))
               (unat (bonds s (proposer (stateCommitments s (commitmentIndex (fraudProofs s i))))))\<rparr>"
    and "paid =
        (if bonds s (proposer (stateCommitments s (commitmentIndex (fraudProofs s i))))
              > bondAmount s
         then [(challenger (fraudProofs s i), bondAmount s),
               (challenger (fraudProofs s i),
                bonds s (proposer (stateCommitments s (commitmentIndex (fraudProofs s i))))
                  - bondAmount s)]
         else [(challenger (fraudProofs s i), bondAmount s)])"
  using assms
  by (auto simp: resolveChallenge_def Let_def word_less_nat_alt word_le_nat_alt unat_sub max_def
      split: if_splits sum.splits dest!: transfer_Inr)

lemma resolve_fraud_ok:
  assumes "msg_sender c = owner s" "i < currentProofIndex s" "\<not> resolved (fraudProofs s i)"
    "accepts c (challenger (fraudProofs s i))"
    "max (unat (bondAmount s))
       (unat (bonds s (proposer (stateCommitments s (commitmentIndex (fraudProofs s i))))))
       \<le> balance s"
  shows "\<exists>s' paid. resolveChallenge s c i True = Inr (s', paid)"
  using assms
  by (auto simp: resolveChallenge_def Let_def transfer_def word_less_nat_alt word_le_nat_alt
      unat_sub max_def split: if_splits sum.splits)

lemma paid_fraud:
  "paid = (if b > a then [(C, a), (C, b - a)] else [(C, a)]) \<Longrightarrow>
    paid_to C paid = max (unat a) (unat b) \<and> (\<forall>x. x \<noteq> C \<longrightarrow> paid_to x paid = 0)"
  by (auto simp: word_less_nat_alt word_le_nat_alt unat_sub max_def)

text \<open>
  C1, as the code has it. A successful \<open>resolveChallenge\<close> with \<open>fraudulent = false\<close>
  pays exactly \<open>bondAmount\<close> in ether from the contract to the proposer of the challenged
  commitment and makes no other payment: no address other than the proposer receives
  anything, so the challenger's posted bond is forfeited, not returned. The call leaves
  every balance of the bond ledger as it was, and it sets \<open>resolved\<close>, which no later
  sequence of calls clears. It does succeed when the owner calls it on an unresolved
  challenge, the contract holds \<open>bondAmount\<close> and the proposer accepts the payment.
\<close>

theorem resolveChallenge_not_fraudulent:
  "(resolveChallenge s c i False = Inr (s', paid) \<longrightarrow>
      paid = [(proposer (stateCommitments s (commitmentIndex (fraudProofs s i))), bondAmount s)]
      \<and> paid_to (proposer (stateCommitments s (commitmentIndex (fraudProofs s i)))) paid
            = unat (bondAmount s)
      \<and> (\<forall>a. a \<noteq> proposer (stateCommitments s (commitmentIndex (fraudProofs s i))) \<longrightarrow>
             paid_to a paid = 0)
      \<and> bonds s' = bonds s
      \<and> balance s' + unat (bondAmount s) = balance s
      \<and> resolved (fraudProofs s' i)
      \<and> (\<forall>xs. resolved (fraudProofs (run s' xs) i)))
   \<and> (msg_sender c = owner s \<and> i < currentProofIndex s \<and> \<not> resolved (fraudProofs s i)
       \<and> unat (bondAmount s) \<le> balance s
       \<and> accepts c (proposer (stateCommitments s (commitmentIndex (fraudProofs s i)))) \<longrightarrow>
      resolveChallenge s c i False =
        Inr (s\<lparr>fraudProofs := (fraudProofs s)(i := (fraudProofs s i)\<lparr>resolved := True\<rparr>),
               balance := balance s - unat (bondAmount s)\<rparr>,
             [(proposer (stateCommitments s (commitmentIndex (fraudProofs s i))),
               bondAmount s)]))"
proof (intro conjI impI allI)
  assume ok: "resolveChallenge s c i False = Inr (s', paid)"
  note r = resolve_honest_Inr[OF ok]
  show paid: "paid
      = [(proposer (stateCommitments s (commitmentIndex (fraudProofs s i))), bondAmount s)]"
    using r by simp
  show "paid_to (proposer (stateCommitments s (commitmentIndex (fraudProofs s i)))) paid
      = unat (bondAmount s)"
    by (simp add: paid)
  show "paid_to a paid = 0"
    if "a \<noteq> proposer (stateCommitments s (commitmentIndex (fraudProofs s i)))" for a
    using that by (auto simp: paid)
  show "bonds s' = bonds s" using r by simp
  show "balance s' + unat (bondAmount s) = balance s" using r by simp
  have here: "i < currentProofIndex s' \<and> resolved (fraudProofs s' i)" using r by simp
  then show "resolved (fraudProofs s' i)" by simp
  show "resolved (fraudProofs (run s' xs) i)" for xs
    using here run_resolved[of i s' xs] by simp
next
  assume "msg_sender c = owner s \<and> i < currentProofIndex s \<and> \<not> resolved (fraudProofs s i)
       \<and> unat (bondAmount s) \<le> balance s
       \<and> accepts c (proposer (stateCommitments s (commitmentIndex (fraudProofs s i))))"
  then show "resolveChallenge s c i False =
        Inr (s\<lparr>fraudProofs := (fraudProofs s)(i := (fraudProofs s i)\<lparr>resolved := True\<rparr>),
               balance := balance s - unat (bondAmount s)\<rparr>,
             [(proposer (stateCommitments s (commitmentIndex (fraudProofs s i))),
               bondAmount s)])"
    by (simp add: resolve_honest_ok)
qed

theorem resolveChallenge_not_fraudulent_witness:
  "resolveChallenge ex_challenged (ex_ctx 1 30) 0 False
     = Inr (after ex_challenged (ResolveChallenge (ex_ctx 1 30) 0 False), [(2, 1000)])
   \<and> msg_sender (ex_ctx 1 30) = owner ex_challenged
   \<and> 0 < currentProofIndex ex_challenged
   \<and> \<not> resolved (fraudProofs ex_challenged 0)
   \<and> unat (bondAmount ex_challenged) \<le> balance ex_challenged
   \<and> accepts (ex_ctx 1 30)
        (proposer (stateCommitments ex_challenged (commitmentIndex (fraudProofs ex_challenged 0))))
   \<and> proposer (stateCommitments ex_challenged (commitmentIndex (fraudProofs ex_challenged 0)))
        = 2
   \<and> challenger (fraudProofs ex_challenged 0) = 3
   \<and> paid_to 2 [(2, 1000)] = unat (bondAmount ex_challenged)
   \<and> (3 :: address) \<noteq> 2
   \<and> paid_to 3 [(2, 1000)] = 0
   \<and> bonds (after ex_challenged (ResolveChallenge (ex_ctx 1 30) 0 False)) = bonds ex_challenged
   \<and> balance (after ex_challenged (ResolveChallenge (ex_ctx 1 30) 0 False)) = 1500
   \<and> resolved (fraudProofs (after ex_challenged (ResolveChallenge (ex_ctx 1 30) 0 False)) 0)"
  using resolveChallenge_not_fraudulent
    [of ex_challenged "ex_ctx 1 30" 0
        "after ex_challenged (ResolveChallenge (ex_ctx 1 30) 0 False)" "[(2, 1000)]"]
  by (simp add: ex_defs)

theorem resolveChallenge_not_fraudulent_counterexample:
  "resolveChallenge ex_challenged (ex_ctx 1 30) 0 False
     = Inr (after ex_challenged (ResolveChallenge (ex_ctx 1 30) 0 False), [(2, 1000)])
   \<and> proposer (stateCommitments ex_challenged (commitmentIndex (fraudProofs ex_challenged 0))) = 2
   \<and> bondAmount ex_challenged = 1000
   \<and> bonds ex_challenged 2 = 1500
   \<and> bonds (after ex_challenged (ResolveChallenge (ex_ctx 1 30) 0 False)) 2 = 1500
   \<and> bonds (after ex_challenged (ResolveChallenge (ex_ctx 1 30) 0 False)) 2
       \<noteq> bonds ex_challenged 2 + bondAmount ex_challenged"
  by (simp add: ex_defs)

text \<open>
  C2, as the code has it. A successful \<open>resolveChallenge\<close> with \<open>fraudulent = true\<close> sets
  the proposer's balance in the bond ledger to zero and changes no other balance; it pays
  the challenger, and nobody else, the larger of \<open>bondAmount\<close> and the proposer's balance
  before the call, which is exactly that balance whenever the balance was at least
  \<open>bondAmount\<close>; and it sets \<open>resolved\<close>, which no later sequence of calls clears. It does
  succeed when the owner calls it on an unresolved challenge, the contract holds the
  amount to pay and the challenger accepts the payment.
\<close>

theorem resolveChallenge_fraudulent:
  "(resolveChallenge s c i True = Inr (s', paid)
      \<and> P = proposer (stateCommitments s (commitmentIndex (fraudProofs s i)))
      \<and> C = challenger (fraudProofs s i) \<longrightarrow>
      bonds s' = (bonds s)(P := 0)
      \<and> paid_to C paid = max (unat (bondAmount s)) (unat (bonds s P))
      \<and> (bondAmount s \<le> bonds s P \<longrightarrow> paid_to C paid = unat (bonds s P))
      \<and> (\<forall>a. a \<noteq> C \<longrightarrow> paid_to a paid = 0)
      \<and> balance s' + paid_to C paid = balance s
      \<and> resolved (fraudProofs s' i)
      \<and> (\<forall>xs. resolved (fraudProofs (run s' xs) i)))
   \<and> (msg_sender c = owner s \<and> i < currentProofIndex s \<and> \<not> resolved (fraudProofs s i)
       \<and> accepts c (challenger (fraudProofs s i))
       \<and> max (unat (bondAmount s))
            (unat (bonds s (proposer (stateCommitments s (commitmentIndex (fraudProofs s i))))))
            \<le> balance s \<longrightarrow>
      (\<exists>s' paid. resolveChallenge s c i True = Inr (s', paid)))"
proof (intro conjI impI allI)
  assume "resolveChallenge s c i True = Inr (s', paid)
      \<and> P = proposer (stateCommitments s (commitmentIndex (fraudProofs s i)))
      \<and> C = challenger (fraudProofs s i)"
  then have ok: "resolveChallenge s c i True = Inr (s', paid)"
    and P: "P = proposer (stateCommitments s (commitmentIndex (fraudProofs s i)))"
    and C: "C = challenger (fraudProofs s i)"
    by simp_all
  note r = resolve_fraud_Inr[OF ok, folded P C]
  note s' = r(3) and paid = r(4) and enough = r(2)
  have p: "paid_to C paid = max (unat (bondAmount s)) (unat (bonds s P))
      \<and> (\<forall>x. x \<noteq> C \<longrightarrow> paid_to x paid = 0)"
    by (rule paid_fraud[OF paid])
  show "bonds s' = (bonds s)(P := 0)" by (simp add: s')
  show "paid_to C paid = max (unat (bondAmount s)) (unat (bonds s P))" using p by simp
  show "paid_to C paid = unat (bonds s P)" if "bondAmount s \<le> bonds s P"
    using p that by (simp add: word_le_nat_alt max_def)
  show "paid_to a paid = 0" if "a \<noteq> C" for a using p that by simp
  have "balance s' = balance s - max (unat (bondAmount s)) (unat (bonds s P))"
    by (simp add: s')
  then show "balance s' + paid_to C paid = balance s" using p enough by simp
  have here: "i < currentProofIndex s' \<and> resolved (fraudProofs s' i)"
    using r(1) by (simp add: s')
  then show "resolved (fraudProofs s' i)" by simp
  show "resolved (fraudProofs (run s' xs) i)" for xs
    using here run_resolved[of i s' xs] by simp
next
  assume "msg_sender c = owner s \<and> i < currentProofIndex s \<and> \<not> resolved (fraudProofs s i)
       \<and> accepts c (challenger (fraudProofs s i))
       \<and> max (unat (bondAmount s))
            (unat (bonds s (proposer (stateCommitments s (commitmentIndex (fraudProofs s i))))))
            \<le> balance s"
  then show "\<exists>s' paid. resolveChallenge s c i True = Inr (s', paid)"
    using resolve_fraud_ok[of c s i] by blast
qed

theorem resolveChallenge_fraudulent_witness:
  "resolveChallenge ex_challenged (ex_ctx 1 30) 0 True
     = Inr (after ex_challenged (ResolveChallenge (ex_ctx 1 30) 0 True), [(3, 1000), (3, 500)])
   \<and> proposer (stateCommitments ex_challenged (commitmentIndex (fraudProofs ex_challenged 0))) = 2
   \<and> challenger (fraudProofs ex_challenged 0) = 3
   \<and> bondAmount ex_challenged \<le> bonds ex_challenged 2
   \<and> msg_sender (ex_ctx 1 30) = owner ex_challenged
   \<and> 0 < currentProofIndex ex_challenged
   \<and> \<not> resolved (fraudProofs ex_challenged 0)
   \<and> accepts (ex_ctx 1 30) (challenger (fraudProofs ex_challenged 0))
   \<and> max (unat (bondAmount ex_challenged)) (unat (bonds ex_challenged 2)) \<le> balance ex_challenged
   \<and> bonds (after ex_challenged (ResolveChallenge (ex_ctx 1 30) 0 True)) 2 = 0
   \<and> paid_to 3 [(3, 1000), (3, 500)] = unat (bonds ex_challenged 2)
   \<and> balance (after ex_challenged (ResolveChallenge (ex_ctx 1 30) 0 True)) = 1000
   \<and> resolved (fraudProofs (after ex_challenged (ResolveChallenge (ex_ctx 1 30) 0 True)) 0)"
  using resolveChallenge_fraudulent
    [of ex_challenged "ex_ctx 1 30" 0
        "after ex_challenged (ResolveChallenge (ex_ctx 1 30) 0 True)" "[(3, 1000), (3, 500)]" 2 3]
  by (simp add: ex_defs)

theorem resolveChallenge_fraudulent_counterexample:
  "resolveChallenge ex_withdrawn (ex_ctx 1 30) 0 True
     = Inr (after ex_withdrawn (ResolveChallenge (ex_ctx 1 30) 0 True), [(3, 1000)])
   \<and> proposer (stateCommitments ex_withdrawn (commitmentIndex (fraudProofs ex_withdrawn 0))) = 2
   \<and> challenger (fraudProofs ex_withdrawn 0) = 3
   \<and> bonds ex_withdrawn 2 = 0
   \<and> bondAmount ex_withdrawn = 1000
   \<and> paid_to 3 [(3, 1000)] = 1000
   \<and> paid_to 3 [(3, 1000)] \<noteq> unat (bonds ex_withdrawn 2)"
  by (simp add: ex_defs)


subsection \<open>challengeState\<close>

lemma challengeState_low_bond:
  "v < bondAmount s \<Longrightarrow>
     challengeState s c v i pre post p = Inl (Revert ''Insufficient challenge bond'')"
  by (auto simp: challengeState_def dest: leD)

lemma challengeState_late:
  assumes "unat (block_timestamp c)
             > unat (timestamp (stateCommitments s i)) + unat (challengePeriod s)"
  shows "\<exists>e. challengeState s c v i pre post p = Inl e"
proof -
  have "\<not> block_timestamp c \<le> timestamp (stateCommitments s i) + challengePeriod s"
    using window_closed[OF assms] by (simp add: not_le)
  then show ?thesis by (simp add: challengeState_def)
qed

lemma challengeState_finalized:
  "finalized (stateCommitments s i) \<Longrightarrow> \<exists>e. challengeState s c v i pre post p = Inl e"
  by (simp add: challengeState_def)

lemma rejected_after: "\<exists>e. step s x = Inl e \<Longrightarrow> after s x = s"
  by (auto simp: after_def)

lemma challengeState_accepted:
  assumes "i < currentCommitmentIndex s" "bondAmount s \<le> v"
    "\<not> finalized (stateCommitments s i)"
    "unat (timestamp (stateCommitments s i)) + unat (challengePeriod s) < 2 ^ 256"
    "unat (block_timestamp c)
       \<le> unat (timestamp (stateCommitments s i)) + unat (challengePeriod s)"
    "unat (currentProofIndex s) + 1 < 2 ^ 256"
  shows "challengeState s c v i pre post p =
     Inr (s\<lparr>fraudProofs := (fraudProofs s)
              (currentProofIndex s :=
                 \<lparr>commitmentIndex = i, preStateRoot = pre, postStateRoot = post,
                  transitionProof = p, challenger = msg_sender c,
                  challengeTime = block_timestamp c, resolved = False\<rparr>),
            currentProofIndex := currentProofIndex s + 1,
            balance := balance s + unat v\<rparr>, [])"
proof -
  have a: "\<not> overflows (timestamp (stateCommitments s i)) (challengePeriod s)"
    using assms(4) by (simp add: overflows_def)
  have b: "block_timestamp c \<le> timestamp (stateCommitments s i) + challengePeriod s"
    using assms(5) a by (simp add: word_le_nat_alt no_overflow_unat)
  have d: "\<not> overflows (currentProofIndex s) 1"
    using assms(6) by (simp add: overflows_def)
  show ?thesis using assms(1-3) a b d by (simp add: challengeState_def)
qed

lemma challengeState_ignores_challenges:
  "succeeds (challengeState (s\<lparr>fraudProofs := fp\<rparr>) c v i pre post p)
     = succeeds (challengeState s c v i pre post p)"
  by (simp add: challengeState_def succeeds_def)

lemma challengeState_again:
  assumes "challengeState s c v i pre post p = Inr (s', paid)"
  shows "succeeds (challengeState s' c v i pre post p)
           = (unat (currentProofIndex s) + 2 < 2 ^ 256)"
proof -
  have n: "\<not> overflows (currentProofIndex s) 1" and s': "s' = s\<lparr>fraudProofs := (fraudProofs s)
              (currentProofIndex s :=
                 \<lparr>commitmentIndex = i, preStateRoot = pre, postStateRoot = post,
                  transitionProof = p, challenger = msg_sender c,
                  challengeTime = block_timestamp c, resolved = False\<rparr>),
            currentProofIndex := currentProofIndex s + 1,
            balance := balance s + unat v\<rparr>"
    using assms by (auto simp: challengeState_def split: if_splits)
  have "unat (currentProofIndex s + 1) = unat (currentProofIndex s) + 1"
    using no_overflow_unat[OF n] by simp
  then have "overflows (currentProofIndex s + 1) 1 = (\<not> unat (currentProofIndex s) + 2 < 2 ^ 256)"
    by (simp add: overflows_def)
  then show ?thesis using assms
    by (auto simp: challengeState_def succeeds_def s' split: if_splits)
qed

text \<open>
  C3, as the code has it. \<open>challengeState\<close> reverts, the storage and with it the number of
  recorded challenges unchanged, when the bond sent is below \<open>bondAmount\<close>, when the time
  is past \<open>commitTime + challengePeriod\<close>, and when the commitment is finalized. On an
  existing, not finalized commitment, with a sufficient bond and inside the window, it
  records the challenge under the next proof index provided that
  \<open>commitTime + challengePeriod\<close> fits in 256 bits and the proof counter is not at its
  maximum; the checked arithmetic aborts the call otherwise. Whether a call is accepted
  does not depend on the challenges already recorded: an accepted challenge can be
  repeated at once on the same commitment as long as the counter has room.
\<close>

theorem challengeState_accepts_inside_window:
  "(v1 < bondAmount s \<longrightarrow>
      (\<exists>e. challengeState s c v1 i pre post p = Inl e)
      \<and> after s (ChallengeState c v1 i pre post p) = s)
   \<and> (unat (block_timestamp c2)
         > unat (timestamp (stateCommitments s i)) + unat (challengePeriod s) \<longrightarrow>
      (\<exists>e. challengeState s c2 v i pre post p = Inl e)
      \<and> after s (ChallengeState c2 v i pre post p) = s)
   \<and> (finalized (stateCommitments t j) \<longrightarrow>
      (\<exists>e. challengeState t c v j pre post p = Inl e)
      \<and> after t (ChallengeState c v j pre post p) = t)
   \<and> (i < currentCommitmentIndex s \<and> bondAmount s \<le> v
       \<and> \<not> finalized (stateCommitments s i)
       \<and> unat (timestamp (stateCommitments s i)) + unat (challengePeriod s) < 2 ^ 256
       \<and> unat (block_timestamp c)
            \<le> unat (timestamp (stateCommitments s i)) + unat (challengePeriod s)
       \<and> unat (currentProofIndex s) + 1 < 2 ^ 256 \<longrightarrow>
      challengeState s c v i pre post p =
        Inr (s\<lparr>fraudProofs := (fraudProofs s)
                 (currentProofIndex s :=
                    \<lparr>commitmentIndex = i, preStateRoot = pre, postStateRoot = post,
                     transitionProof = p, challenger = msg_sender c,
                     challengeTime = block_timestamp c, resolved = False\<rparr>),
               currentProofIndex := currentProofIndex s + 1,
               balance := balance s + unat v\<rparr>, []))
   \<and> succeeds (challengeState (s\<lparr>fraudProofs := fp\<rparr>) c v i pre post p)
        = succeeds (challengeState s c v i pre post p)
   \<and> (challengeState s c v i pre post p = Inr (s', paid) \<longrightarrow>
        succeeds (challengeState s' c v i pre post p)
          = (unat (currentProofIndex s) + 2 < 2 ^ 256))"
proof (intro conjI impI)
  assume "v1 < bondAmount s"
  then show "\<exists>e. challengeState s c v1 i pre post p = Inl e"
    by (simp add: challengeState_low_bond)
  then show "after s (ChallengeState c v1 i pre post p) = s"
    by (simp add: rejected_after)
next
  assume "unat (block_timestamp c2)
         > unat (timestamp (stateCommitments s i)) + unat (challengePeriod s)"
  then show "\<exists>e. challengeState s c2 v i pre post p = Inl e"
    by (rule challengeState_late)
  then show "after s (ChallengeState c2 v i pre post p) = s"
    by (simp add: rejected_after)
next
  assume "finalized (stateCommitments t j)"
  then show "\<exists>e. challengeState t c v j pre post p = Inl e"
    by (rule challengeState_finalized)
  then show "after t (ChallengeState c v j pre post p) = t"
    by (simp add: rejected_after)
next
  assume "i < currentCommitmentIndex s \<and> bondAmount s \<le> v
       \<and> \<not> finalized (stateCommitments s i)
       \<and> unat (timestamp (stateCommitments s i)) + unat (challengePeriod s) < 2 ^ 256
       \<and> unat (block_timestamp c)
            \<le> unat (timestamp (stateCommitments s i)) + unat (challengePeriod s)
       \<and> unat (currentProofIndex s) + 1 < 2 ^ 256"
  then show "challengeState s c v i pre post p =
        Inr (s\<lparr>fraudProofs := (fraudProofs s)
                 (currentProofIndex s :=
                    \<lparr>commitmentIndex = i, preStateRoot = pre, postStateRoot = post,
                     transitionProof = p, challenger = msg_sender c,
                     challengeTime = block_timestamp c, resolved = False\<rparr>),
               currentProofIndex := currentProofIndex s + 1,
               balance := balance s + unat v\<rparr>, [])"
    by (simp add: challengeState_accepted)
next
  show "succeeds (challengeState (s\<lparr>fraudProofs := fp\<rparr>) c v i pre post p)
        = succeeds (challengeState s c v i pre post p)"
    by (rule challengeState_ignores_challenges)
next
  assume "challengeState s c v i pre post p = Inr (s', paid)"
  then show "succeeds (challengeState s' c v i pre post p)
          = (unat (currentProofIndex s) + 2 < 2 ^ 256)"
    by (rule challengeState_again)
qed

theorem challengeState_accepts_inside_window_witness:
  "(999 :: uint256) < bondAmount ex_challenged
   \<and> challengeState ex_challenged (ex_ctx 4 30) 999 0 5 6 []
        = Inl (Revert ''Insufficient challenge bond'')
   \<and> unat (block_timestamp (ex_ctx 4 111))
        > unat (timestamp (stateCommitments ex_challenged 0)) + unat (challengePeriod ex_challenged)
   \<and> challengeState ex_challenged (ex_ctx 4 111) 1000 0 5 6 []
        = Inl (Revert ''Challenge period expired'')
   \<and> finalized (stateCommitments ex_finalized 0)
   \<and> challengeState ex_finalized (ex_ctx 4 30) 1000 0 5 6 []
        = Inl (Revert ''State already finalized'')
   \<and> 0 < currentCommitmentIndex ex_challenged
   \<and> bondAmount ex_challenged \<le> 1000
   \<and> \<not> finalized (stateCommitments ex_challenged 0)
   \<and> unat (timestamp (stateCommitments ex_challenged 0)) + unat (challengePeriod ex_challenged)
        < 2 ^ 256
   \<and> unat (block_timestamp (ex_ctx 4 30))
        \<le> unat (timestamp (stateCommitments ex_challenged 0)) + unat (challengePeriod ex_challenged)
   \<and> unat (currentProofIndex ex_challenged) + 1 < 2 ^ 256
   \<and> challengeState ex_challenged (ex_ctx 4 30) 1000 0 5 6 []
        = Inr (after ex_challenged (ChallengeState (ex_ctx 4 30) 1000 0 5 6 []), [])
   \<and> currentProofIndex (after ex_challenged (ChallengeState (ex_ctx 4 30) 1000 0 5 6 [])) = 2
   \<and> succeeds (challengeState
        (after ex_challenged (ChallengeState (ex_ctx 4 30) 1000 0 5 6 []))
        (ex_ctx 4 30) 1000 0 5 6 [])"
  using challengeState_accepts_inside_window
    [of 999 ex_challenged "ex_ctx 4 30" 0 5 6 "[]" "ex_ctx 4 111" 1000 ex_finalized 0
        "fraudProofs ex_challenged"
        "after ex_challenged (ChallengeState (ex_ctx 4 30) 1000 0 5 6 [])" "[]"]
  by (simp add: ex_defs)

theorem challengeState_accepts_inside_window_counterexample:
  "0 < currentCommitmentIndex ex_forever
   \<and> bondAmount ex_forever \<le> 1000
   \<and> \<not> finalized (stateCommitments ex_forever 0)
   \<and> unat (block_timestamp (ex_ctx 3 20))
        \<le> unat (timestamp (stateCommitments ex_forever 0)) + unat (challengePeriod ex_forever)
   \<and> challengeState ex_forever (ex_ctx 3 20) 1000 0 5 6 [] = Inl Panic
   \<and> after ex_forever (ChallengeState (ex_ctx 3 20) 1000 0 5 6 []) = ex_forever"
  by (simp add: ex_defs)


section \<open>Properties of the router\<close>

lemmas rex_defs = ex_router_def ex_router_down_def ex_router_no_metrics_def
  ex_router_100_5_2_def ex_adapter_def ex_failing_def ex_no_metrics_def ex_metrics_def
  ex_result_def ex_batch_def ex_eth_def ex_eth_disconnected_def
  registerAdapter_def new_SettlementRouter_def analyzeBatch_def sort_by_def make_decision_def
  normalizeCostScore_def normalizeTimeScore_def generateReason_def bigint_div_def Let_def
  submitBatchWithFailover_def submitToChain_def updateStats_def succeeds_def scorable_def
  Balanced_selectChain_def Balanced_score_def normalizeCost_def normalizeTime_def
  CostOptimized_selectChain_def MAX_SAFE_INTEGER_def eth_estimateGasCost_def
  getCurrentGasPrice_def

subsection \<open>Sorting by descending score\<close>

lemma insert_by_insort:
  "insert_by (\<lambda>a b. f b - f a) x xs = insort_key (\<lambda>d. - f d) x xs"
  by (induction xs) auto

lemma sort_by_sort_key:
  "sort_by (\<lambda>a b. f b - f a) xs = sort_key (\<lambda>d. - f d) xs"
  unfolding sort_by_def sort_key_def by (simp add: insert_by_insort[abs_def])

lemma sorted_desc:
  fixes f :: "'a \<Rightarrow> real"
  shows "sorted_wrt (\<lambda>d e. f d \<ge> f e) (sort_key (\<lambda>d. - f d) xs)"
proof -
  have "sorted (map (\<lambda>d. - f d) (sort_key (\<lambda>d. - f d) xs))" by (rule sorted_sort_key)
  then show ?thesis by (simp add: sorted_map)
qed

lemma stable_desc:
  fixes f :: "'a \<Rightarrow> real"
  shows "filter (\<lambda>d. f d = v) (sort_key (\<lambda>d. - f d) xs) = filter (\<lambda>d. f d = v) xs"
  using sort_key_stable[of "\<lambda>d. - f d" "- v" xs] by simp

subsection \<open>The decisions of analyzeBatch\<close>

lemma scorableE:
  assumes "scorable b e"
  obtains c m where "isConnected (snd e)" "estimateGasCost (snd e) b = Inr c"
    "getMetrics (snd e) = Inr m"
  using assms by (auto simp: scorable_def succeeds_def split: sum.splits)

lemma analyze_loop_skip:
  "\<not> scorable b e \<Longrightarrow> analyze_loop b (e # es) ds = analyze_loop b es ds"
  by (auto simp: scorable_def succeeds_def Let_def split: sum.splits)

lemma analyze_loop_push:
  "isConnected (snd e) \<Longrightarrow> estimateGasCost (snd e) b = Inr c \<Longrightarrow> getMetrics (snd e) = Inr m
    \<Longrightarrow> analyze_loop b (e # es) ds
          = analyze_loop b es (ds @ [make_decision (fst e) (snd e) c m])"
  by (simp add: Let_def)

lemma analyze_loop_acc:
  "analyze_loop b es ds = ds @ analyze_loop b es []"
proof (induction es arbitrary: ds)
  case Nil
  then show ?case by simp
next
  case (Cons e es)
  have IH: "analyze_loop b es xs = xs @ analyze_loop b es []" for xs
    by (rule Cons.IH)
  show ?case
  proof (cases "scorable b e")
    case False
    then show ?thesis using IH[of ds] by (simp del: analyze_loop.simps add: analyze_loop_skip)
  next
    case True
    then obtain c m where e: "isConnected (snd e)" "estimateGasCost (snd e) b = Inr c"
      "getMetrics (snd e) = Inr m"
      by (rule scorableE)
    show ?thesis
      using IH[of "ds @ [make_decision (fst e) (snd e) c m]"]
        IH[of "[make_decision (fst e) (snd e) c m]"]
      by (simp del: analyze_loop.simps add: analyze_loop_push[OF e])
  qed
qed

lemma chainId_make_decision: "chainId (make_decision k a c m) = k"
  by (simp add: make_decision_def Let_def)

lemma analyze_loop_chainIds:
  "map chainId (analyze_loop b es []) = map fst (filter (scorable b) es)"
proof (induction es)
  case Nil
  then show ?case by simp
next
  case (Cons e es)
  show ?case
  proof (cases "scorable b e")
    case False
    then show ?thesis using Cons.IH by (simp del: analyze_loop.simps add: analyze_loop_skip)
  next
    case True
    then obtain c m where e: "isConnected (snd e)" "estimateGasCost (snd e) b = Inr c"
      "getMetrics (snd e) = Inr m"
      by (rule scorableE)
    show ?thesis
      using True Cons.IH analyze_loop_acc[of b es "[make_decision (fst e) (snd e) c m]"]
      by (simp del: analyze_loop.simps add: analyze_loop_push[OF e] chainId_make_decision)
  qed
qed

lemma analyze_loop_origin:
  "d \<in> set (analyze_loop b es []) \<Longrightarrow>
     \<exists>a c m. (chainId d, a) \<in> set es \<and> isConnected a \<and> estimateGasCost a b = Inr c
       \<and> getMetrics a = Inr m \<and> d = make_decision (chainId d) a c m"
proof (induction es)
  case Nil
  then show ?case by simp
next
  case (Cons e es)
  show ?case
  proof (cases "scorable b e")
    case False
    then show ?thesis using Cons by (auto simp del: analyze_loop.simps simp add: analyze_loop_skip)
  next
    case True
    then obtain c m where e: "isConnected (snd e)" "estimateGasCost (snd e) b = Inr c"
      "getMetrics (snd e) = Inr m"
      by (rule scorableE)
    have "d = make_decision (fst e) (snd e) c m \<or> d \<in> set (analyze_loop b es [])"
      using Cons.prems analyze_loop_acc[of b es "[make_decision (fst e) (snd e) c m]"]
      by (simp del: analyze_loop.simps add: analyze_loop_push[OF e])
    then show ?thesis
    proof
      assume d: "d = make_decision (fst e) (snd e) c m"
      then have "chainId d = fst e" by (simp add: chainId_make_decision)
      then have "(chainId d, snd e) \<in> set (e # es)" by simp
      moreover have "d = make_decision (chainId d) (snd e) c m"
        using d by (simp add: chainId_make_decision)
      ultimately show ?thesis using e by blast
    next
      assume "d \<in> set (analyze_loop b es [])"
      then show ?thesis using Cons.IH by auto
    qed
  qed
qed

lemma analyzeBatch_sort_key:
  "analyzeBatch r b = sort_key (\<lambda>d. - score d) (analyze_loop b (adapters r) [])"
  by (simp add: analyzeBatch_def sort_by_sort_key)

lemma map_set_keys:
  "map fst (map_set k v m) = (if k \<in> fst ` set m then map fst m else map fst m @ [k])"
  by (induction m) auto

lemma registerAdapter_distinct:
  "distinct (map fst (adapters r)) \<Longrightarrow> distinct (map fst (adapters (registerAdapter r a)))"
  by (simp add: registerAdapter_def map_set_keys)

text \<open>
  C6, as the code has it. \<open>analyzeBatch\<close> returns one decision for each entry of the
  registry whose adapter is connected and answers both the cost and the metrics query,
  and none for any other entry: the chains of the decisions are the chains of those
  entries, each once, since the keys of the registry are distinct. The list is sorted by
  non-increasing score, and decisions of equal score stand in registration order.
\<close>

theorem analyzeBatch_ranks_scorable_adapters:
  "(distinct (map fst (adapters r)) \<longrightarrow> distinct (map chainId (analyzeBatch r b)))
   \<and> set (map chainId (analyzeBatch r b)) = set (map fst (filter (scorable b) (adapters r)))
   \<and> length (analyzeBatch r b) = length (filter (scorable b) (adapters r))
   \<and> sorted_wrt (\<lambda>d e. score d \<ge> score e) (analyzeBatch r b)
   \<and> map chainId (filter (\<lambda>d. score d = v) (analyzeBatch r b))
        = map chainId (filter (\<lambda>d. score d = v) (analyze_loop b (adapters r) []))
   \<and> map chainId (analyze_loop b (adapters r) []) = map fst (filter (scorable b) (adapters r))"
proof (intro conjI impI)
  let ?ds = "analyze_loop b (adapters r) []"
  have ids: "map chainId ?ds = map fst (filter (scorable b) (adapters r))"
    by (rule analyze_loop_chainIds)
  have sk: "analyzeBatch r b = sort_key (\<lambda>d. - score d) ?ds"
    by (rule analyzeBatch_sort_key)
  show "map chainId ?ds = map fst (filter (scorable b) (adapters r))" by (rule ids)
  have "set (map chainId (analyzeBatch r b)) = set (map chainId ?ds)"
    by (simp add: sk)
  then show "set (map chainId (analyzeBatch r b))
      = set (map fst (filter (scorable b) (adapters r)))"
    by (simp only: ids)
  have "length (analyzeBatch r b) = length (map chainId ?ds)" by (simp add: sk)
  then show "length (analyzeBatch r b) = length (filter (scorable b) (adapters r))"
    by (simp only: ids length_map)
  show "sorted_wrt (\<lambda>d e. score d \<ge> score e) (analyzeBatch r b)"
    unfolding sk by (rule sorted_desc)
  show "map chainId (filter (\<lambda>d. score d = v) (analyzeBatch r b))
        = map chainId (filter (\<lambda>d. score d = v) ?ds)"
    unfolding sk by (simp only: stable_desc)
  assume "distinct (map fst (adapters r))"
  then have "distinct (map fst (filter (scorable b) (adapters r)))"
    by (rule distinct_map_filter)
  then have d: "distinct (map chainId ?ds)" by (simp only: ids)
  then show "distinct (map chainId (analyzeBatch r b))"
    by (simp add: sk distinct_map)
qed

theorem analyzeBatch_ranks_scorable_adapters_witness:
  "distinct (map fst (adapters ex_router))
   \<and> map chainId (analyzeBatch ex_router ex_batch) = [ETHEREUM, POLYGON, BSC]
   \<and> map score (analyzeBatch ex_router ex_batch) = [864 / 10, 864 / 10, 614 / 10]
   \<and> map fst (filter (scorable ex_batch) (adapters ex_router)) = [ETHEREUM, BSC, POLYGON]
   \<and> distinct (map chainId (analyzeBatch ex_router ex_batch))
   \<and> map chainId (filter (\<lambda>d. score d = 864 / 10) (analyzeBatch ex_router ex_batch))
        = [ETHEREUM, POLYGON]"
  using analyzeBatch_ranks_scorable_adapters[of ex_router ex_batch "864 / 10"]
  by (simp add: rex_defs)

theorem analyzeBatch_ranks_scorable_adapters_counterexample:
  "map fst (filter (\<lambda>e. isConnected (snd e)) (adapters ex_router_no_metrics)) = [ETHEREUM, BSC]
   \<and> map chainId (analyzeBatch ex_router_no_metrics ex_batch) = [ETHEREUM]
   \<and> length (analyzeBatch ex_router_no_metrics ex_batch)
        \<noteq> length (filter (\<lambda>e. isConnected (snd e)) (adapters ex_router_no_metrics))"
  by (simp add: rex_defs)

subsection \<open>The cost-optimized strategy\<close>

text \<open>
  C7 at an input where the code departs from it. One adapter is registered and
  connected, and its cost estimate succeeds with \<open>10 ^ 16\<close> wei (0.01 ETH), which is
  above \<open>Number.MAX_SAFE_INTEGER\<close>, the starting value of \<open>lowestCost\<close>: no cost is
  ever below it, and \<open>selectChain\<close> throws \<open>No available chains for settlement\<close>
  instead of returning the only, hence cheapest, chain.
\<close>

theorem CostOptimized_selectChain_above_sentinel:
  "isConnected (ex_adapter ETHEREUM ''Ethereum'' (10 ^ 16) 36)
   \<and> estimateGasCost (ex_adapter ETHEREUM ''Ethereum'' (10 ^ 16) 36) ex_batch = Inr (10 ^ 16)
   \<and> CostOptimized_selectChain ex_batch
        [(ETHEREUM, ex_adapter ETHEREUM ''Ethereum'' (10 ^ 16) 36)]
      = Inl NoAvailableChains"
  by (simp add: rex_defs)

lemma cost_loop_all_above:
  "\<forall>e \<in> set es. \<forall>c. isConnected (snd e) \<and> estimateGasCost (snd e) b = Inr c \<longrightarrow> low \<le> c
    \<Longrightarrow> cost_loop b es (best, low) = (best, low)"
  by (induction es) (auto simp: Let_def split: sum.splits)

lemma CostOptimized_never_selects_above_sentinel:
  "\<forall>e \<in> set es. \<forall>c. isConnected (snd e) \<and> estimateGasCost (snd e) b = Inr c
      \<longrightarrow> 2 ^ 53 - 1 \<le> c
    \<Longrightarrow> CostOptimized_selectChain b es = Inl NoAvailableChains"
  by (simp add: CostOptimized_selectChain_def MAX_SAFE_INTEGER_def cost_loop_all_above)

subsection \<open>The scores\<close>

lemma bigint_div_nonneg: "0 \<le> a \<Longrightarrow> 0 < b \<Longrightarrow> bigint_div a b = a div b"
  by (cases "a = 0") (simp_all add: bigint_div_def)

lemma normalizeCostScore_nonneg:
  assumes "0 \<le> c"
  shows "normalizeCostScore c = real_of_int (max 0 (100 - (c * 100) div 10 ^ 18))"
proof -
  have q: "bigint_div (c * 100) (10 ^ 18) = (c * 100) div 10 ^ 18"
    using assms by (simp add: bigint_div_nonneg)
  have "0 \<le> (c * 100) div 10 ^ 18" using assms by (simp add: pos_imp_zdiv_nonneg_iff)
  then show ?thesis
    unfolding normalizeCostScore_def Let_def q by (simp add: max_def min_def)
qed

lemma small_cost_quotient:
  fixes c :: int
  assumes "0 \<le> c" "c < 10 ^ 16"
  shows "(c * 100) div 10 ^ 18 = 0"
proof -
  have "c * 100 < 10 ^ 18" using assms(2) by simp
  moreover have "0 \<le> c * 100" using assms(1) by simp
  ultimately show ?thesis by simp
qed

lemma normalizeCostScore_small: "0 \<le> c \<Longrightarrow> c < 10 ^ 16 \<Longrightarrow> normalizeCostScore c = 100"
  by (simp add: normalizeCostScore_nonneg small_cost_quotient)

lemma normalizeCost_eq: "normalizeCost c = normalizeCostScore c"
  by (simp add: normalizeCost_def normalizeCostScore_def)

lemma Balanced_score_small:
  "0 \<le> c \<Longrightarrow> c < 10 ^ 16 \<Longrightarrow> Balanced_score c m = Balanced_score 0 m"
  by (simp add: Balanced_score_def normalizeCost_eq normalizeCostScore_small)

lemma score_make_decision:
  "score (make_decision k a c m) =
     0.5 * normalizeCostScore c + 0.3 * normalizeTimeScore (metricsFinalizationTime m)
       + 0.2 * (100 - chainLoad m)"
  by (simp add: make_decision_def Let_def)

lemma analyzeBatch_origin:
  assumes "d \<in> set (analyzeBatch r b)"
  shows "\<exists>a c m. (chainId d, a) \<in> set (adapters r) \<and> isConnected a
     \<and> estimateGasCost a b = Inr c \<and> getMetrics a = Inr m
     \<and> d = make_decision (chainId d) a c m"
proof -
  have "d \<in> set (analyze_loop b (adapters r) [])"
    using assms by (simp add: analyzeBatch_sort_key)
  then show ?thesis by (rule analyze_loop_origin)
qed

text \<open>
  C8, as the code has it. The cost sub-score is \<open>clamp(100 - q, 0, 100)\<close> where \<open>q\<close> is
  the truncating \<open>bigint\<close> quotient of \<open>100 * cost\<close> by \<open>10 ^ 18\<close>, a whole number; the
  time sub-score is \<open>clamp(100 - 100 * time / 300, 0, 100)\<close>; every decision of
  \<open>analyzeBatch\<close> carries \<open>0.5 * costScore + 0.3 * timeScore + 0.2 * (100 - chainLoad)\<close>
  of the cost and metrics its adapter reported. Cost 0 scores 100 and cost \<open>10 ^ 18\<close>
  scores 0. Every cost from 0 up to, but not including, \<open>10 ^ 16\<close> wei scores 100, so the
  costs 100, 5 and 2 with equal finalization time and load receive one and the same
  Balanced-strategy score.
\<close>

theorem scores_as_computed:
  "normalizeCostScore c
     = max 0 (min 100 (100 - real_of_int (bigint_div (c * 100) (10 ^ 18))))
   \<and> (0 \<le> c \<longrightarrow> normalizeCostScore c = real_of_int (max 0 (100 - (c * 100) div 10 ^ 18)))
   \<and> normalizeTimeScore t = max 0 (min 100 (100 - 100 * t / 300))
   \<and> (\<forall>d \<in> set (analyzeBatch r b).
        \<exists>a c' m. (chainId d, a) \<in> set (adapters r)
          \<and> estimateGasCost a b = Inr c' \<and> getMetrics a = Inr m
          \<and> estimatedCost d = c' \<and> estimatedTime d = metricsFinalizationTime m
          \<and> score d = 0.5 * normalizeCostScore c'
                      + 0.3 * normalizeTimeScore (metricsFinalizationTime m)
                      + 0.2 * (100 - chainLoad m))
   \<and> normalizeCostScore 0 = 100
   \<and> normalizeCostScore (10 ^ 18) = 0
   \<and> (0 \<le> c1 \<and> c1 < 10 ^ 16 \<longrightarrow>
        normalizeCostScore c1 = 100 \<and> Balanced_score c1 m1 = Balanced_score 0 m1)
   \<and> Balanced_score 100 m1 = Balanced_score 2 m1
   \<and> Balanced_score 5 m1 = Balanced_score 2 m1"
proof (intro conjI impI ballI)
  show "normalizeCostScore c
     = max 0 (min 100 (100 - real_of_int (bigint_div (c * 100) (10 ^ 18))))"
    by (simp add: normalizeCostScore_def)
  show "normalizeCostScore c = real_of_int (max 0 (100 - (c * 100) div 10 ^ 18))" if "0 \<le> c"
    using that by (rule normalizeCostScore_nonneg)
  show "normalizeTimeScore t = max 0 (min 100 (100 - 100 * t / 300))"
    by (simp add: normalizeTimeScore_def)
  show "normalizeCostScore 0 = 100" by (simp add: normalizeCostScore_small)
  show "normalizeCostScore (10 ^ 18) = 0" by (simp add: normalizeCostScore_nonneg)
  show "normalizeCostScore c1 = 100" if "0 \<le> c1 \<and> c1 < 10 ^ 16"
    using that by (simp add: normalizeCostScore_small)
  show "Balanced_score c1 m1 = Balanced_score 0 m1" if "0 \<le> c1 \<and> c1 < 10 ^ 16"
    using that by (intro Balanced_score_small) simp_all
  show "Balanced_score 100 m1 = Balanced_score 2 m1"
    by (simp add: Balanced_score_small[of 100] Balanced_score_small[of 2])
  show "Balanced_score 5 m1 = Balanced_score 2 m1"
    by (simp add: Balanced_score_small[of 5] Balanced_score_small[of 2])
next
  fix d assume "d \<in> set (analyzeBatch r b)"
  then obtain a c' m where o: "(chainId d, a) \<in> set (adapters r)"
    "estimateGasCost a b = Inr c'" "getMetrics a = Inr m"
    "d = make_decision (chainId d) a c' m"
    using analyzeBatch_origin by blast
  have "estimatedCost d = c'" "estimatedTime d = metricsFinalizationTime m"
    by (subst o(4), simp add: make_decision_def Let_def)+
  moreover have "score d = 0.5 * normalizeCostScore c'
      + 0.3 * normalizeTimeScore (metricsFinalizationTime m) + 0.2 * (100 - chainLoad m)"
    by (subst o(4)) (rule score_make_decision)
  ultimately show "\<exists>a c' m. (chainId d, a) \<in> set (adapters r)
          \<and> estimateGasCost a b = Inr c' \<and> getMetrics a = Inr m
          \<and> estimatedCost d = c' \<and> estimatedTime d = metricsFinalizationTime m
          \<and> score d = 0.5 * normalizeCostScore c'
                      + 0.3 * normalizeTimeScore (metricsFinalizationTime m)
                      + 0.2 * (100 - chainLoad m)"
    using o(1-3) by blast
qed

theorem scores_as_computed_witness:
  "(0::int) \<le> 5 * 10 ^ 17
   \<and> normalizeCostScore (5 * 10 ^ 17) = 50
   \<and> normalizeTimeScore 36 = 88
   \<and> map chainId (analyzeBatch ex_router ex_batch) = [ETHEREUM, POLYGON, BSC]
   \<and> list_all (\<lambda>d. d \<in> set (analyzeBatch ex_router ex_batch)
        \<and> (\<exists>a c' m. (chainId d, a) \<in> set (adapters ex_router)
          \<and> estimateGasCost a ex_batch = Inr c' \<and> getMetrics a = Inr m
          \<and> estimatedCost d = c' \<and> estimatedTime d = metricsFinalizationTime m
          \<and> score d = 0.5 * normalizeCostScore c'
                      + 0.3 * normalizeTimeScore (metricsFinalizationTime m)
                      + 0.2 * (100 - chainLoad m)))
       (analyzeBatch ex_router ex_batch)
   \<and> (0::int) \<le> 5 \<and> (5::int) < 10 ^ 16
   \<and> normalizeCostScore 5 = 100
   \<and> Balanced_score 5 (ex_metrics 36) = Balanced_score 0 (ex_metrics 36)"
proof -
  note t = scores_as_computed[of "5 * 10 ^ 17" 36 ex_router ex_batch 5 "ex_metrics 36"]
  have cost: "normalizeCostScore (5 * 10 ^ 17) = 50"
    using t[THEN conjunct2, THEN conjunct1] by simp
  have time: "normalizeTimeScore 36 = 88"
    using t[THEN conjunct2, THEN conjunct2, THEN conjunct1] by simp
  note each = t[THEN conjunct2, THEN conjunct2, THEN conjunct2, THEN conjunct1]
  have all: "list_all (\<lambda>d. d \<in> set (analyzeBatch ex_router ex_batch)
        \<and> (\<exists>a c' m. (chainId d, a) \<in> set (adapters ex_router)
          \<and> estimateGasCost a ex_batch = Inr c' \<and> getMetrics a = Inr m
          \<and> estimatedCost d = c' \<and> estimatedTime d = metricsFinalizationTime m
          \<and> score d = 0.5 * normalizeCostScore c'
                      + 0.3 * normalizeTimeScore (metricsFinalizationTime m)
                      + 0.2 * (100 - chainLoad m)))
       (analyzeBatch ex_router ex_batch)"
    unfolding list_all_iff using each by simp
  note small = t[THEN conjunct2, THEN conjunct2, THEN conjunct2, THEN conjunct2,
      THEN conjunct2, THEN conjunct2, THEN conjunct1]
  have five: "normalizeCostScore 5 = 100
      \<and> Balanced_score 5 (ex_metrics 36) = Balanced_score 0 (ex_metrics 36)"
    using small by simp
  have ids: "map chainId (analyzeBatch ex_router ex_batch) = [ETHEREUM, POLYGON, BSC]"
    by (simp add: rex_defs)
  show ?thesis using cost time all five ids by simp
qed

theorem scores_as_computed_counterexample:
  "map (\<lambda>e. estimateGasCost (snd e) ex_batch) (adapters ex_router_100_5_2)
     = [Inr 100, Inr 5, Inr 2]
   \<and> map (\<lambda>e. getMetrics (snd e)) (adapters ex_router_100_5_2)
     = [Inr (ex_metrics 36), Inr (ex_metrics 36), Inr (ex_metrics 36)]
   \<and> map (\<lambda>e. isConnected (snd e)) (adapters ex_router_100_5_2) = [True, True, True]
   \<and> Balanced_score 100 (ex_metrics 36) = 852 / 10
   \<and> Balanced_score 5 (ex_metrics 36) = 852 / 10
   \<and> Balanced_score 2 (ex_metrics 36) = 852 / 10
   \<and> \<not> Balanced_score 2 (ex_metrics 36) > Balanced_score 100 (ex_metrics 36)
   \<and> Balanced_selectChain ex_batch (adapters ex_router_100_5_2) = Inr ETHEREUM
   \<and> map chainId (analyzeBatch ex_router_100_5_2 ex_batch) = [ETHEREUM, BSC, POLYGON]"
  by (simp add: rex_defs)

subsection \<open>Failover\<close>

lemma submitToChain_no_retry:
  assumes "map_of (adapters r) k = Some a" "isConnected a"
  shows "submitToChain r b k 0 =
     (case submitBatch a b 0 of
        Inr res \<Rightarrow> Inr (res, r\<lparr>stats := updateStats (stats r) k res\<rparr>)
      | Inl e \<Rightarrow> Inl (SettlementFailed 1 (Some e)))"
  using assms by (simp add: submitToChain_def split: sum.splits)

lemma failover_loop_first_success:
  "failover_loop r b ds =
     (case dropWhile (\<lambda>d. \<not> succeeds (submitToChain r b (chainId d) 0)) ds of
        [] \<Rightarrow> Inl AllChainsFailed
      | d # rest \<Rightarrow> submitToChain r b (chainId d) 0)"
  by (induction ds) (auto simp: succeeds_def split: sum.splits)

lemma failover_loop_all_fail:
  "\<forall>d \<in> set ds. \<not> succeeds (submitToChain r b (chainId d) 0)
     \<Longrightarrow> failover_loop r b ds = Inl AllChainsFailed"
  by (induction ds) (auto simp: succeeds_def split: sum.splits)

text \<open>
  C9. \<open>submitBatchWithFailover\<close> goes through the ranking of \<open>analyzeBatch\<close> from the
  highest score down and returns the result of the first chain whose \<open>submitToChain\<close>,
  called with no retry, does not throw; with no retry, \<open>submitToChain\<close> on a registered,
  connected adapter makes the single call \<open>submitBatch\<close> and returns its result, the
  statistics updated, or throws if it throws. If the attempt on every ranked chain throws,
  the error is \<open>AllChainsFailed\<close>; with an empty ranking it is \<open>NoAvailableChains\<close>. With
  three ranked chains of which the first throws and the second succeeds, the result is
  the second chain's.
\<close>

theorem submitBatchWithFailover_first_success:
  "submitBatchWithFailover r b =
     (if analyzeBatch r b = [] then Inl NoAvailableChains
      else case dropWhile (\<lambda>d. \<not> succeeds (submitToChain r b (chainId d) 0))
                  (analyzeBatch r b) of
             [] \<Rightarrow> Inl AllChainsFailed
           | d # rest \<Rightarrow> submitToChain r b (chainId d) 0)
   \<and> (map_of (adapters r) k = Some a \<and> isConnected a \<longrightarrow>
        submitToChain r b k 0 =
          (case submitBatch a b 0 of
             Inr res \<Rightarrow> Inr (res, r\<lparr>stats := updateStats (stats r) k res\<rparr>)
           | Inl e \<Rightarrow> Inl (SettlementFailed 1 (Some e))))
   \<and> (analyzeBatch r' b \<noteq> []
        \<and> (\<forall>d \<in> set (analyzeBatch r' b). \<not> succeeds (submitToChain r' b (chainId d) 0)) \<longrightarrow>
        submitBatchWithFailover r' b = Inl AllChainsFailed)
   \<and> (analyzeBatch r b = [d1, d2, d3]
        \<and> map_of (adapters r) (chainId d1) = Some a1 \<and> isConnected a1
        \<and> submitBatch a1 b 0 = Inl e1
        \<and> map_of (adapters r) (chainId d2) = Some a2 \<and> isConnected a2
        \<and> submitBatch a2 b 0 = Inr res2 \<longrightarrow>
        submitBatchWithFailover r b
          = Inr (res2, r\<lparr>stats := updateStats (stats r) (chainId d2) res2\<rparr>))"
proof (intro conjI impI)
  show "submitBatchWithFailover r b =
     (if analyzeBatch r b = [] then Inl NoAvailableChains
      else case dropWhile (\<lambda>d. \<not> succeeds (submitToChain r b (chainId d) 0))
                  (analyzeBatch r b) of
             [] \<Rightarrow> Inl AllChainsFailed
           | d # rest \<Rightarrow> submitToChain r b (chainId d) 0)"
    by (simp add: submitBatchWithFailover_def Let_def failover_loop_first_success)
next
  assume "map_of (adapters r) k = Some a \<and> isConnected a"
  then show "submitToChain r b k 0 =
          (case submitBatch a b 0 of
             Inr res \<Rightarrow> Inr (res, r\<lparr>stats := updateStats (stats r) k res\<rparr>)
           | Inl e \<Rightarrow> Inl (SettlementFailed 1 (Some e)))"
    by (simp add: submitToChain_no_retry)
next
  assume "analyzeBatch r' b \<noteq> []
        \<and> (\<forall>d \<in> set (analyzeBatch r' b). \<not> succeeds (submitToChain r' b (chainId d) 0))"
  then show "submitBatchWithFailover r' b = Inl AllChainsFailed"
    by (simp add: submitBatchWithFailover_def Let_def failover_loop_all_fail)
next
  assume h: "analyzeBatch r b = [d1, d2, d3]
        \<and> map_of (adapters r) (chainId d1) = Some a1 \<and> isConnected a1
        \<and> submitBatch a1 b 0 = Inl e1
        \<and> map_of (adapters r) (chainId d2) = Some a2 \<and> isConnected a2
        \<and> submitBatch a2 b 0 = Inr res2"
  then have first: "submitToChain r b (chainId d1) 0 = Inl (SettlementFailed 1 (Some e1))"
    by (simp add: submitToChain_no_retry)
  from h have second: "submitToChain r b (chainId d2) 0
      = Inr (res2, r\<lparr>stats := updateStats (stats r) (chainId d2) res2\<rparr>)"
    by (simp add: submitToChain_no_retry)
  from h have "submitBatchWithFailover r b = failover_loop r b [d1, d2, d3]"
    by (simp add: submitBatchWithFailover_def Let_def)
  then show "submitBatchWithFailover r b
          = Inr (res2, r\<lparr>stats := updateStats (stats r) (chainId d2) res2\<rparr>)"
    by (simp add: first second)
qed

theorem submitBatchWithFailover_first_success_witness:
  "map chainId (analyzeBatch ex_router ex_batch) = [ETHEREUM, POLYGON, BSC]
   \<and> analyzeBatch ex_router ex_batch
       = [analyzeBatch ex_router ex_batch ! 0, analyzeBatch ex_router ex_batch ! 1,
          analyzeBatch ex_router ex_batch ! 2]
   \<and> map_of (adapters ex_router) ETHEREUM
       = Some (ex_failing (ex_adapter ETHEREUM ''Ethereum'' (10 ^ 15) 36))
   \<and> isConnected (ex_failing (ex_adapter ETHEREUM ''Ethereum'' (10 ^ 15) 36))
   \<and> submitBatch (ex_failing (ex_adapter ETHEREUM ''Ethereum'' (10 ^ 15) 36)) ex_batch 0
       = Inl (Thrown ''transaction reverted'')
   \<and> map_of (adapters ex_router) POLYGON
       = Some (ex_adapter POLYGON ''Polygon'' (2 * 10 ^ 15) 36)
   \<and> isConnected (ex_adapter POLYGON ''Polygon'' (2 * 10 ^ 15) 36)
   \<and> submitBatch (ex_adapter POLYGON ''Polygon'' (2 * 10 ^ 15) 36) ex_batch 0
       = Inr (ex_result ''Polygon'')
   \<and> submitBatchWithFailover ex_router ex_batch
       = Inr (ex_result ''Polygon'',
              ex_router\<lparr>stats := updateStats (stats ex_router) POLYGON (ex_result ''Polygon'')\<rparr>)
   \<and> analyzeBatch ex_router_down ex_batch \<noteq> []
   \<and> list_all (\<lambda>d. \<not> succeeds (submitToChain ex_router_down ex_batch (chainId d) 0))
        (analyzeBatch ex_router_down ex_batch)
   \<and> submitBatchWithFailover ex_router_down ex_batch = Inl AllChainsFailed"
proof -
  let ?eth = "ex_failing (ex_adapter ETHEREUM ''Ethereum'' (10 ^ 15) 36)"
  let ?poly = "ex_adapter POLYGON ''Polygon'' (2 * 10 ^ 15) 36"
  let ?ds = "analyzeBatch ex_router ex_batch"
  note t = submitBatchWithFailover_first_success
    [of ex_router ex_batch ETHEREUM ?eth ex_router_down "?ds ! 0" "?ds ! 1" "?ds ! 2"
        ?eth "Thrown ''transaction reverted''" ?poly "ex_result ''Polygon''"]
  have ids: "map chainId ?ds = [ETHEREUM, POLYGON, BSC]"
    by (simp add: rex_defs)
  then have len: "length ?ds = 3" by (metis length_map length_Cons list.size(3) numeral_3_eq_3)
  have three: "?ds = [?ds ! 0, ?ds ! 1, ?ds ! 2]"
    using len by (auto simp: list_eq_iff_nth_eq less_Suc_eq eval_nat_numeral)
  have c0: "chainId (?ds ! 0) = ETHEREUM" and c1: "chainId (?ds ! 1) = POLYGON"
    using ids len by (metis nth_map nth_Cons_0 zero_less_numeral,
        metis nth_map nth_Cons_0 nth_Cons_Suc One_nat_def one_less_numeral_iff semiring_norm(77))
  have eth: "map_of (adapters ex_router) ETHEREUM = Some ?eth \<and> isConnected ?eth
      \<and> submitBatch ?eth ex_batch 0 = Inl (Thrown ''transaction reverted'')"
    by (simp add: rex_defs)
  have poly: "map_of (adapters ex_router) POLYGON = Some ?poly \<and> isConnected ?poly
      \<and> submitBatch ?poly ex_batch 0 = Inr (ex_result ''Polygon'')"
    by (simp add: rex_defs)
  have second: "submitBatchWithFailover ex_router ex_batch
       = Inr (ex_result ''Polygon'',
              ex_router\<lparr>stats := updateStats (stats ex_router) POLYGON (ex_result ''Polygon'')\<rparr>)"
    using t[THEN conjunct2, THEN conjunct2, THEN conjunct2] three c0 c1 eth poly by simp
  have ne: "analyzeBatch ex_router_down ex_batch \<noteq> []"
    by (simp add: rex_defs)
  have fail: "list_all (\<lambda>d. \<not> succeeds (submitToChain ex_router_down ex_batch (chainId d) 0))
        (analyzeBatch ex_router_down ex_batch)"
    by (simp add: rex_defs)
  have down: "submitBatchWithFailover ex_router_down ex_batch = Inl AllChainsFailed"
    using t[THEN conjunct2, THEN conjunct2, THEN conjunct1] ne fail
    by (simp add: list_all_iff)
  show ?thesis using ids three eth poly second ne fail down by simp
qed

subsection \<open>EthereumAdapter.estimateGasCost\<close>

lemma normalizeCostScore_ge_0: "0 \<le> normalizeCostScore c"
  by (simp add: normalizeCostScore_def Let_def)

text \<open>
  C10, as the code has it. An adapter that holds a settlement contract always returns a
  cost from \<open>estimateGasCost\<close>: when encoding the batch, the gas estimation or the gas
  price query fails, the cost is the constant \<open>10 ^ 18\<close> wei, which gets the lowest cost
  sub-score there is, 0. An adapter without a settlement contract, that is, one not
  connected, throws \<open>'<name> adapter not connected'\<close> to the caller.
\<close>

theorem estimateGasCost_pessimistic_when_connected:
  "(settlementContract a \<longrightarrow> (\<exists>c. eth_estimateGasCost a b = Inr c))
   \<and> (settlementContract a1 \<and> \<not> succeeds (encodeBatch a1 b) \<longrightarrow>
        eth_estimateGasCost a1 b = Inr (10 ^ 18))
   \<and> (settlementContract a2 \<and> encodeBatch a2 b = Inr batchData
        \<and> \<not> succeeds (estimateGas a2 b batchData) \<longrightarrow>
        eth_estimateGasCost a2 b = Inr (10 ^ 18))
   \<and> (settlementContract a3 \<and> \<not> succeeds (getCurrentGasPrice a3) \<longrightarrow>
        eth_estimateGasCost a3 b = Inr (10 ^ 18))
   \<and> (\<not> settlementContract a4 \<longrightarrow>
        eth_estimateGasCost a4 b = Inl (Thrown (ethConfigName a4 @ '' adapter not connected'')))
   \<and> normalizeCostScore (10 ^ 18) = 0
   \<and> 0 \<le> normalizeCostScore c'"
proof (intro conjI impI)
  show "\<exists>c. eth_estimateGasCost a b = Inr c" if "settlementContract a"
    using that by (auto simp: eth_estimateGasCost_def split: sum.splits)
  show "eth_estimateGasCost a1 b = Inr (10 ^ 18)"
    if "settlementContract a1 \<and> \<not> succeeds (encodeBatch a1 b)"
    using that by (auto simp: eth_estimateGasCost_def succeeds_def split: sum.splits)
  show "eth_estimateGasCost a2 b = Inr (10 ^ 18)"
    if "settlementContract a2 \<and> encodeBatch a2 b = Inr batchData
        \<and> \<not> succeeds (estimateGas a2 b batchData)"
    using that by (auto simp: eth_estimateGasCost_def succeeds_def split: sum.splits)
  show "eth_estimateGasCost a3 b = Inr (10 ^ 18)"
    if "settlementContract a3 \<and> \<not> succeeds (getCurrentGasPrice a3)"
    using that by (auto simp: eth_estimateGasCost_def succeeds_def split: sum.splits)
  show "eth_estimateGasCost a4 b = Inl (Thrown (ethConfigName a4 @ '' adapter not connected''))"
    if "\<not> settlementContract a4"
    using that by (simp add: eth_estimateGasCost_def)
  show "normalizeCostScore (10 ^ 18) = 0" by (simp add: normalizeCostScore_nonneg)
  show "0 \<le> normalizeCostScore c'" by (rule normalizeCostScore_ge_0)
qed

theorem estimateGasCost_pessimistic_when_connected_witness:
  "settlementContract ex_eth
   \<and> eth_estimateGasCost ex_eth ex_batch = Inr 2000000000000000
   \<and> \<not> succeeds (encodeBatch (ex_eth\<lparr>encodeBatch := (\<lambda>_. Inl (Thrown ''invalid hex''))\<rparr>) ex_batch)
   \<and> eth_estimateGasCost (ex_eth\<lparr>encodeBatch := (\<lambda>_. Inl (Thrown ''invalid hex''))\<rparr>) ex_batch
       = Inr (10 ^ 18)
   \<and> encodeBatch (ex_eth\<lparr>estimateGas := (\<lambda>_ _. Inl (Thrown ''execution reverted''))\<rparr>) ex_batch
       = Inr ''0x00''
   \<and> \<not> succeeds (estimateGas (ex_eth\<lparr>estimateGas := (\<lambda>_ _. Inl (Thrown ''execution reverted''))\<rparr>)
         ex_batch ''0x00'')
   \<and> eth_estimateGasCost (ex_eth\<lparr>estimateGas := (\<lambda>_ _. Inl (Thrown ''execution reverted''))\<rparr>)
         ex_batch = Inr (10 ^ 18)
   \<and> \<not> succeeds (getCurrentGasPrice (ex_eth\<lparr>getFeeData := Inl (Thrown ''timeout'')\<rparr>))
   \<and> eth_estimateGasCost (ex_eth\<lparr>getFeeData := Inl (Thrown ''timeout'')\<rparr>) ex_batch
       = Inr (10 ^ 18)
   \<and> \<not> settlementContract ex_eth_disconnected
   \<and> eth_estimateGasCost ex_eth_disconnected ex_batch
       = Inl (Thrown ''Ethereum adapter not connected'')"
  using estimateGasCost_pessimistic_when_connected
    [of ex_eth ex_batch "ex_eth\<lparr>encodeBatch := (\<lambda>_. Inl (Thrown ''invalid hex''))\<rparr>"
        "ex_eth\<lparr>estimateGas := (\<lambda>_ _. Inl (Thrown ''execution reverted''))\<rparr>" "''0x00''"
        "ex_eth\<lparr>getFeeData := Inl (Thrown ''timeout'')\<rparr>" ex_eth_disconnected 0]
  by (simp add: rex_defs)

theorem estimateGasCost_pessimistic_when_connected_counterexample:
  "\<not> settlementContract ex_eth_disconnected
   \<and> eth_estimateGasCost ex_eth_disconnected ex_batch
       = Inl (Thrown ''Ethereum adapter not connected'')
   \<and> eth_estimateGasCost ex_eth_disconnected ex_batch \<noteq> Inr (10 ^ 18)"
  by (simp add: rex_defs)

end
